theory Spec2Isabelle
  imports Complex_Main "HOL-Library.AList" "HOL-Library.Char_ord" "HOL-Library.List_Lexorder"
begin

section \<open>Values, exceptions and the outside world\<close>

text \<open>
  The connector handles decoded JSON throughout: the run state, the configuration, the
  source API's answer and the enrichment service's answer. A Python \<open>dict\<close> is an
  association list in insertion order; \<open>AList.update\<close> is the assignment \<open>d[k] = v\<close>
  (an existing key keeps its place, a new one goes to the end). A \<open>str\<close> is a list of
  characters compared by code point, which is Python's order on strings; a \<open>char\<close> stands
  for a code point below 256.
\<close>

datatype json =
    JNull
  | JBool bool
  | JInt int
  | JFloat real
  | JStr string
  | JArr "json list"
  | JObj "(string \<times> json) list"

type_synonym dict = "(string \<times> json) list"

text \<open>The configuration the host passes: every value is a string.\<close>

type_synonym conf = "(string \<times> string) list"

text \<open>An exception: its class name and its message, \<open>str(e)\<close>.\<close>

datatype exn = Exn (exn_class: string) (exn_str: string)

datatype request =
    Get string dict dict
  | Post string dict json

text \<open>
  An HTTP answer as the connector reads it: the status line, and what \<open>.json()\<close>
  gives (the decoded body, or the exception raised on a body that is not JSON).
\<close>

record response =
  status_code :: nat
  reason :: string
  json_body :: "exn + json"

type_synonym event = "request \<times> (exn + response)"

text \<open>
  The result of \<open>cnx.cursor().execute(q)\<close>: the cursor object itself, holding the value
  the query computed (no value for an empty table).
\<close>

datatype cursor = SnowflakeCursor "int option"

text \<open>
  Everything the run reads from outside. The clock is in seconds since 1970-01-01T00:00:00
  UTC. An HTTP answer may depend on every request made before it.
\<close>

record env =
  env_now :: int
  env_cwd :: string
  sf_connect :: "conf \<Rightarrow> exn option"
  sf_execute :: "string \<Rightarrow> exn + cursor"
  http :: "event list \<Rightarrow> request \<Rightarrow> exn + response"
  format_exc :: "exn \<Rightarrow> string"

text \<open>
  What the run leaves behind besides its operations: the HTTP requests made, each with its
  answer, and the warnings logged, both oldest first.
\<close>

record world =
  trace :: "event list"
  warnings :: "string list"

datatype operation =
    Upsert string dict
  | Checkpoint dict

text \<open>
  A generator consumed to its end: the operations it yielded, in order, and the exception
  that ended it, if one did.
\<close>

record run =
  run_ops :: "operation list"
  run_outcome :: "exn option"
  run_world :: world

section \<open>Python primitives\<close>

definition nl :: string where
  "nl = [CHR 0x0A]"

text \<open>\<open>repr\<close> of a string without quotes, backslashes or control characters.\<close>

definition py_repr :: "string \<Rightarrow> string" where
  "py_repr s = [CHR 0x27] @ s @ [CHR 0x27]"

definition digit :: "int \<Rightarrow> char" where
  "digit n = char_of (48 + n)"

text \<open>\<open>str(n)\<close> for a natural number.\<close>

fun show_nat :: "nat \<Rightarrow> string" where
  "show_nat n =
     (if n < 10 then [digit (int n)] else show_nat (n div 10) @ [digit (int (n mod 10))])"

declare show_nat.simps [simp del]

definition type_name :: "json \<Rightarrow> string" where
  "type_name v = (case v of
       JNull \<Rightarrow> ''NoneType'' | JBool _ \<Rightarrow> ''bool'' | JInt _ \<Rightarrow> ''int''
     | JFloat _ \<Rightarrow> ''float'' | JStr _ \<Rightarrow> ''str'' | JArr _ \<Rightarrow> ''list''
     | JObj _ \<Rightarrow> ''dict'')"

definition not_subscriptable :: "json \<Rightarrow> exn" where
  "not_subscriptable v =
     Exn ''TypeError'' (py_repr (type_name v) @ '' object is not subscriptable'')"

text \<open>Sequencing of steps that may raise: the first exception ends the sequence.\<close>

definition and_then :: "exn + 'a \<Rightarrow> ('a \<Rightarrow> exn + 'b) \<Rightarrow> exn + 'b" where
  "and_then m f = (case m of Inl e \<Rightarrow> Inl e | Inr v \<Rightarrow> f v)"

text \<open>\<open>d[k]\<close> on a dictionary, as for \<open>conf["PAGE_SIZE"]\<close>.\<close>

definition dict_getitem :: "(string \<times> 'v) list \<Rightarrow> string \<Rightarrow> exn + 'v" where
  "dict_getitem d k = (case map_of d k of
       None \<Rightarrow> Inl (Exn ''KeyError'' (py_repr k))
     | Some v \<Rightarrow> Inr v)"

text \<open>\<open>d.get(k)\<close> on a dictionary: \<open>None\<close> for a missing key.\<close>

definition dict_get :: "dict \<Rightarrow> string \<Rightarrow> json" where
  "dict_get d k = (case map_of d k of None \<Rightarrow> JNull | Some v \<Rightarrow> v)"

text \<open>\<open>v[k]\<close> with a string key on any decoded JSON value.\<close>

definition py_getitem :: "json \<Rightarrow> string \<Rightarrow> exn + json" where
  "py_getitem v k = (case v of
       JObj d \<Rightarrow> dict_getitem d k
     | JArr _ \<Rightarrow> Inl (Exn ''TypeError'' ''list indices must be integers or slices, not str'')
     | JStr _ \<Rightarrow>
         Inl (Exn ''TypeError'' (''string indices must be integers, not '' @ py_repr ''str''))
     | _ \<Rightarrow> Inl (not_subscriptable v))"

text \<open>
  \<open>v[i]\<close> with a literal index \<open>i \<ge> 0\<close>. A decoded JSON object has string keys only, so
  an integer key is never found.
\<close>

definition py_index :: "json \<Rightarrow> nat \<Rightarrow> exn + json" where
  "py_index v i = (case v of
       JArr xs \<Rightarrow> if i < length xs then Inr (xs ! i)
                  else Inl (Exn ''IndexError'' ''list index out of range'')
     | JStr s \<Rightarrow> if i < length s then Inr (JStr [s ! i])
                 else Inl (Exn ''IndexError'' ''string index out of range'')
     | JObj _ \<Rightarrow> Inl (Exn ''KeyError'' (show_nat i))
     | _ \<Rightarrow> Inl (not_subscriptable v))"

text \<open>\<open>v.get(k)\<close> on any decoded JSON value: only a dictionary has the method.\<close>

definition py_get :: "json \<Rightarrow> string \<Rightarrow> exn + json" where
  "py_get v k = (case v of
       JObj d \<Rightarrow> Inr (dict_get d k)
     | _ \<Rightarrow> Inl (Exn ''AttributeError''
              (py_repr (type_name v) @ '' object has no attribute '' @ py_repr ''get'')))"

text \<open>
  The items a \<open>for\<close> loop takes from a decoded JSON value: the elements of a list, the
  characters of a string, the keys of a dictionary; nothing else is iterable.
\<close>

definition py_iter :: "json \<Rightarrow> exn + json list" where
  "py_iter v = (case v of
       JArr xs \<Rightarrow> Inr xs
     | JStr s \<Rightarrow> Inr (map (\<lambda>c. JStr [c]) s)
     | JObj d \<Rightarrow> Inr (map (\<lambda>(k, _). JStr k) d)
     | _ \<Rightarrow> Inl (Exn ''TypeError'' (py_repr (type_name v) @ '' object is not iterable'')))"

text \<open>Truth value of a decoded JSON value, as \<open>filter(None, ...)\<close> tests it.\<close>

definition truthy :: "json \<Rightarrow> bool" where
  "truthy v = (case v of
       JNull \<Rightarrow> False | JBool b \<Rightarrow> b | JInt n \<Rightarrow> n \<noteq> 0 | JFloat x \<Rightarrow> x \<noteq> 0
     | JStr s \<Rightarrow> s \<noteq> [] | JArr xs \<Rightarrow> xs \<noteq> [] | JObj d \<Rightarrow> d \<noteq> [])"

text \<open>
  \<open>a < b\<close>. Exact whenever one operand is a string, which is all \<open>update\<close> needs: two
  strings compare by code point, a string and anything else raise \<open>TypeError\<close>.
\<close>

definition py_lt :: "json \<Rightarrow> json \<Rightarrow> exn + bool" where
  "py_lt a b = (case (a, b) of
       (JStr x, JStr y) \<Rightarrow> Inr (x < y)
     | _ \<Rightarrow> Inl (Exn ''TypeError''
          (''< not supported between instances of '' @ py_repr (type_name a) @ '' and ''
            @ py_repr (type_name b))))"

text \<open>
  The loop of the builtin \<open>min\<close>: the first item is the candidate, each later item
  replaces it when \<open>item < candidate\<close>.
\<close>

fun min_loop :: "json \<Rightarrow> json list \<Rightarrow> exn + json" where
  "min_loop m [] = Inr m"
| "min_loop m (x # xs) = (case py_lt x m of
       Inl e \<Rightarrow> Inl e
     | Inr b \<Rightarrow> min_loop (if b then x else m) xs)"

definition py_min :: "json list \<Rightarrow> exn + json" where
  "py_min xs = (case xs of
       [] \<Rightarrow> Inl (Exn ''ValueError'' ''min() iterable argument is empty'')
     | x # rest \<Rightarrow> min_loop x rest)"

text \<open>\<open>str.isspace\<close> on one code point below 256, and \<open>str.strip()\<close>.\<close>

definition isspace :: "char \<Rightarrow> bool" where
  "isspace c = (let n = of_char c :: nat in
     (9 \<le> n \<and> n \<le> 13) \<or> (28 \<le> n \<and> n \<le> 32) \<or> n = 133 \<or> n = 160)"

definition py_strip :: "string \<Rightarrow> string" where
  "py_strip s = rev (dropWhile isspace (rev (dropWhile isspace s)))"

text \<open>\<open>v.strip()\<close> on any decoded JSON value: only a string has the method.\<close>

definition strip_method :: "json \<Rightarrow> exn + string" where
  "strip_method v = (case v of
       JStr s \<Rightarrow> Inr (py_strip s)
     | _ \<Rightarrow> Inl (Exn ''AttributeError''
              (py_repr (type_name v) @ '' object has no attribute '' @ py_repr ''strip'')))"

text \<open>\<open>s.split(",")\<close>: always at least one part.\<close>

fun split_comma :: "string \<Rightarrow> string list" where
  "split_comma [] = [[]]"
| "split_comma (c # cs) =
     (if c = CHR '','' then [] # split_comma cs
      else (case split_comma cs of
              [] \<Rightarrow> [[c]]
            | w # ws \<Rightarrow> (c # w) # ws))"

text \<open>\<open>needle in hay\<close> on strings.\<close>

primrec contains :: "string \<Rightarrow> string \<Rightarrow> bool" where
  "contains [] needle = (needle = [])"
| "contains (c # cs) needle =
     (take (length needle) (c # cs) = needle \<or> contains cs needle)"

text \<open>
  \<open>response.raise_for_status()\<close>: a status from 400 to 599 raises \<open>HTTPError\<close>, any
  other status returns.
\<close>

definition raise_for_status :: "string \<Rightarrow> response \<Rightarrow> exn option" where
  "raise_for_status url r =
     (let c = status_code r in
      if 400 \<le> c \<and> c < 500 then
        Some (Exn ''HTTPError''
               (show_nat c @ '' Client Error: '' @ reason r @ '' for url: '' @ url))
      else if 500 \<le> c \<and> c < 600 then
        Some (Exn ''HTTPError''
               (show_nat c @ '' Server Error: '' @ reason r @ '' for url: '' @ url))
      else None)"

text \<open>
  \<open>cursor[i]\<close>: the cursor class defines no item access, so subscripting the object
  raises whatever the query computed.
\<close>

definition cursor_getitem :: "cursor \<Rightarrow> nat \<Rightarrow> exn + int" where
  "cursor_getitem c i =
     Inl (Exn ''TypeError'' (py_repr ''SnowflakeCursor'' @ '' object is not subscriptable''))"

section \<open>Timestamps\<close>

text \<open>
  \<open>strftime\<close> with \<open>TS_FORMAT = "%Y-%m-%dT%H:%M:%S"\<close> on a UTC time: the civil date of
  the day number (proleptic Gregorian calendar), every field zero-padded.
\<close>

definition pad2 :: "int \<Rightarrow> string" where
  "pad2 n = [digit (n div 10 mod 10), digit (n mod 10)]"

definition pad4 :: "int \<Rightarrow> string" where
  "pad4 n = pad2 (n div 100) @ pad2 (n mod 100)"

definition civil_from_days :: "int \<Rightarrow> int \<times> int \<times> int" where
  "civil_from_days days =
     (let z = days + 719468;
          era = z div 146097;
          doe = z mod 146097;
          yoe = (doe - doe div 1460 + doe div 36524 - doe div 146096) div 365;
          doy = doe - (365 * yoe + yoe div 4 - yoe div 100);
          mp = (5 * doy + 2) div 153;
          d = doy - (153 * mp + 2) div 5 + 1;
          m = (if mp < 10 then mp + 3 else mp - 9);
          y = yoe + era * 400 + (if m \<le> 2 then 1 else 0)
      in (y, m, d))"

definition strftime :: "int \<Rightarrow> string" where
  "strftime t =
     (let (y, m, d) = civil_from_days (t div 86400);
          s = t mod 86400
      in pad4 y @ ''-'' @ pad2 m @ ''-'' @ pad2 d @ ''T''
         @ pad2 (s div 3600) @ '':'' @ pad2 (s div 60 mod 60) @ '':'' @ pad2 (s mod 60))"

section \<open>The connector\<close>

text \<open>\<open>INIT_DELTA = datetime.timedelta(days=2)\<close>, in seconds.\<close>

definition INIT_DELTA :: int where
  "INIT_DELTA = 2 * 86400"

definition BASE_API_URL :: string where
  "BASE_API_URL = ''https://newsapi.org/v2/everything''"

definition TL_CONF :: json where
  "TL_CONF = JObj [(''include_segments'', JBool False)]"

definition TL_URL :: string where
  "TL_URL = ''https://app.tabulalingua.com/v0/standard/''"

subsection \<open>Schema\<close>

record table_schema =
  table :: string
  primary_key :: "string list"
  columns :: "(string \<times> string) list"

definition schema :: "conf \<Rightarrow> table_schema list" where
  "schema configuration =
     [\<lparr>table = ''article'',
       primary_key = [''source'', ''published_at''],
       columns =
         [(''source'', ''STRING''),
          (''published_at'', ''UTC_DATETIME''),
          (''author'', ''STRING''),
          (''title'', ''STRING''),
          (''description'', ''STRING''),
          (''content'', ''STRING''),
          (''url'', ''STRING''),
          (''blue'', ''FLOAT''),
          (''red'', ''FLOAT''),
          (''p0'', ''FLOAT''),
          (''p1'', ''FLOAT''),
          (''p2'', ''FLOAT''),
          (''p3'', ''FLOAT''),
          (''p4'', ''FLOAT''),
          (''p5'', ''FLOAT''),
          (''p6'', ''FLOAT''),
          (''p7'', ''FLOAT'')]\<rparr>]"

subsection \<open>Utility functions\<close>

text \<open>The keyword arguments of \<open>snowflake.connector.connect\<close>, read in order.\<close>

definition connect_args :: "conf \<Rightarrow> exn + conf" where
  "connect_args conf =
     and_then (dict_getitem conf ''SNOWFLAKE_USER'') (\<lambda>user.
     and_then (dict_getitem conf ''SNOWFLAKE_PASSWORD'') (\<lambda>password.
     and_then (dict_getitem conf ''SNOWFLAKE_ACCOUNT'') (\<lambda>account.
     and_then (dict_getitem conf ''SNOWFLAKE_WAREHOUSE'') (\<lambda>warehouse.
     and_then (dict_getitem conf ''SNOWFLAKE_DATABASE'') (\<lambda>database.
     and_then (dict_getitem conf ''SNOWFLAKE_SCHEMA'') (\<lambda>sch.
       Inr [(''user'', user), (''password'', password), (''account'', account),
            (''warehouse'', warehouse), (''database'', database), (''schema'', sch)]))))))"

text \<open>
  The connection is opened before the \<open>try\<close>; the bare \<open>except\<close> covers the query and
  the subscript only, and leaves \<open>result\<close> at \<open>None\<close>.
\<close>

definition get_last_published_at :: "env \<Rightarrow> conf \<Rightarrow> exn + string option" where
  "get_last_published_at env conf =
     (case connect_args conf of
        Inl e \<Rightarrow> Inl e
      | Inr args \<Rightarrow>
     (case sf_connect env args of
        Some e \<Rightarrow> Inl e
      | None \<Rightarrow>
          let table = (if contains (env_cwd env) ''/Users/chris''
                       then ''tester.article'' else ''article'');
              q = ''select max(published_at) from '' @ table;
              result = (case and_then (sf_execute env q) (\<lambda>cur. cursor_getitem cur 0) of
                          Inl _ \<Rightarrow> None
                        | Inr v \<Rightarrow> Some v)
          in Inr (case result of None \<Rightarrow> None | Some t \<Rightarrow> Some (strftime t))))"

subsection \<open>Enrichment\<close>

text \<open>
  The ten assignments \<open>data["blue"] = tl_data["blue"]\<close> to
  \<open>data["p7"] = tl_data["p_values"][7]\<close>: each names the field written and where its
  value is read.
\<close>

datatype field_src = Key string | PValue nat

definition TL_FIELDS :: "(string \<times> field_src) list" where
  "TL_FIELDS =
     [(''blue'', Key ''blue''), (''red'', Key ''red''),
      (''p0'', PValue 0), (''p1'', PValue 1), (''p2'', PValue 2), (''p3'', PValue 3),
      (''p4'', PValue 4), (''p5'', PValue 5), (''p6'', PValue 6), (''p7'', PValue 7)]"

definition tl_value :: "json \<Rightarrow> field_src \<Rightarrow> exn + json" where
  "tl_value tl_data src = (case src of
       Key k \<Rightarrow> py_getitem tl_data k
     | PValue i \<Rightarrow> and_then (py_getitem tl_data ''p_values'') (\<lambda>p. py_index p i))"

text \<open>
  The assignments run in order on the record itself; the first one that raises ends
  them, and what was written before stays.
\<close>

fun assign_fields :: "json \<Rightarrow> (string \<times> field_src) list \<Rightarrow> dict \<Rightarrow> dict \<times> exn option" where
  "assign_fields tl_data [] data = (data, None)"
| "assign_fields tl_data ((k, src) # rest) data = (case tl_value tl_data src of
       Inl e \<Rightarrow> (data, Some e)
     | Inr v \<Rightarrow> assign_fields tl_data rest (AList.update k v data))"

definition blank_error :: exn where
  "blank_error = Exn ''ValueError''
     (''Content is blank or doesn'' @ [CHR 0x27] @ ''t exist in NewsAPI response'')"

text \<open>
  The body of the \<open>try\<close> in \<open>sync_items\<close>: the record as the body leaves it, and the
  exception that ended the body, if one did.
\<close>

definition enrich :: "env \<Rightarrow> conf \<Rightarrow> dict \<Rightarrow> world \<Rightarrow> world \<times> dict \<times> exn option" where
  "enrich env conf data w =
     (case dict_getitem conf ''TABULA_KEY'' of
        Inl e \<Rightarrow> (w, data, Some e)
      | Inr tl_key \<Rightarrow>
     (case strip_method (dict_get data ''content'') of
        Inl e \<Rightarrow> (w, data, Some e)
      | Inr content \<Rightarrow>
          if content = [] then (w, data, Some blank_error)
          else
            let body = JObj [(''config'', TL_CONF), (''text'', JStr content)];
                headers = [(''Auth'', JStr tl_key), (''accept'', JStr ''application/json'')];
                rq = Post TL_URL headers body;
                answer = http env (trace w) rq;
                w1 = w\<lparr>trace := trace w @ [(rq, answer)]\<rparr>
            in (case answer of
                  Inl e \<Rightarrow> (w1, data, Some e)
                | Inr tl_response \<Rightarrow>
               (case raise_for_status TL_URL tl_response of
                  Some e \<Rightarrow> (w1, data, Some e)
                | None \<Rightarrow>
               (case and_then (json_body tl_response) (\<lambda>j.
                     and_then (py_getitem j ''data'') (\<lambda>d. py_getitem d ''document'')) of
                  Inl e \<Rightarrow> (w1, data, Some e)
                | Inr tl_data \<Rightarrow>
                    (case assign_fields tl_data TL_FIELDS data of
                       (data', err) \<Rightarrow> (w1, data', err)))))))"

definition tl_warning :: "env \<Rightarrow> exn \<Rightarrow> string" where
  "tl_warning env err =
     ''TL Error: '' @ exn_class err @ '' - '' @ exn_str err @ nl
     @ ''Stack Trace:'' @ nl @ format_exc env err"

subsection \<open>One topic\<close>

text \<open>The dictionary display that builds \<open>data\<close>, its values read in order.\<close>

definition article_data :: "string \<Rightarrow> json \<Rightarrow> exn + dict" where
  "article_data topic article =
     and_then (py_getitem article ''source'') (\<lambda>src.
     and_then (py_getitem src ''name'') (\<lambda>name.
     and_then (py_getitem article ''publishedAt'') (\<lambda>published_at.
     and_then (py_getitem article ''author'') (\<lambda>author.
     and_then (py_getitem article ''title'') (\<lambda>title.
     and_then (py_getitem article ''description'') (\<lambda>description.
     and_then (py_getitem article ''content'') (\<lambda>content.
     and_then (py_getitem article ''url'') (\<lambda>url.
       Inr [(''topic'', JStr topic), (''source'', name), (''published_at'', published_at),
            (''author'', author), (''title'', title), (''description'', description),
            (''content'', content), (''url'', url)]))))))))"

text \<open>
  The loop over the articles. An exception of the \<open>try\<close> body is logged and the record
  is yielded as the body left it; an exception while building the record ends the loop.
\<close>

fun sync_articles ::
  "env \<Rightarrow> conf \<Rightarrow> string \<Rightarrow> json list \<Rightarrow> world \<Rightarrow> world \<times> operation list \<times> exn option" where
  "sync_articles env conf topic [] w = (w, [], None)"
| "sync_articles env conf topic (article # rest) w =
     (case article_data topic article of
        Inl e \<Rightarrow> (w, [], Some e)
      | Inr data \<Rightarrow>
          (case enrich env conf data w of
             (w1, data1, err) \<Rightarrow>
               let w2 = (case err of
                           None \<Rightarrow> w1
                         | Some e \<Rightarrow> w1\<lparr>warnings := warnings w1 @ [tl_warning env e]\<rparr>)
               in (case sync_articles env conf topic rest w2 of
                     (w3, ops, r) \<Rightarrow> (w3, Upsert ''article'' data1 # ops, r))))"

definition sync_items ::
  "env \<Rightarrow> dict \<Rightarrow> dict \<Rightarrow> dict \<Rightarrow> string \<Rightarrow> conf \<Rightarrow> world
     \<Rightarrow> world \<times> operation list \<times> exn option" where
  "sync_items env headers params state topic conf w =
     (let rq = Get BASE_API_URL headers params;
          answer = http env (trace w) rq;
          w1 = w\<lparr>trace := trace w @ [(rq, answer)]\<rparr>
      in case and_then answer (\<lambda>response.
              and_then (json_body response) (\<lambda>body.
              and_then (py_get body ''articles'') py_iter)) of
           Inl e \<Rightarrow> (w1, [], Some e)
         | Inr articles \<Rightarrow>
             (case sync_articles env conf topic articles w1 of
                (w2, ops, Some e) \<Rightarrow> (w2, ops, Some e)
              | (w2, ops, None) \<Rightarrow> (w2, ops @ [Checkpoint state], None)))"

subsection \<open>Main show\<close>

text \<open>
  The loop over the topics: \<open>params["q"] = topic\<close> changes the one dictionary shared by
  all topics, then the topic's operations are yielded.
\<close>

fun sync_topics ::
  "env \<Rightarrow> conf \<Rightarrow> dict \<Rightarrow> dict \<Rightarrow> dict \<Rightarrow> string list \<Rightarrow> world
     \<Rightarrow> world \<times> operation list \<times> exn option" where
  "sync_topics env conf headers params state [] w = (w, [], None)"
| "sync_topics env conf headers params state (topic # topics) w =
     (let params1 = AList.update ''q'' (JStr topic) params
      in case sync_items env headers params1 state topic conf w of
           (w1, ops, Some e) \<Rightarrow> (w1, ops, Some e)
         | (w1, ops, None) \<Rightarrow>
             (case sync_topics env conf headers params1 state topics w1 of
                (w2, ops2, r) \<Rightarrow> (w2, ops @ ops2, r)))"

text \<open>
  Lines 103 to 111 of \<open>update\<close>: the start of the window is the least truthy entry of
  \<open>start_options\<close>, the end is the time of the run.
\<close>

definition query_window :: "json \<Rightarrow> string option \<Rightarrow> int \<Rightarrow> exn + json \<times> string" where
  "query_window from_ts last_published_at now =
     (let safety = strftime (now - INIT_DELTA);
          start_options =
            [from_ts, (case last_published_at of None \<Rightarrow> JNull | Some s \<Rightarrow> JStr s),
             JStr safety]
      in and_then (py_min (filter truthy start_options)) (\<lambda>query_start.
           Inr (query_start, strftime now)))"

definition wrap_error :: "env \<Rightarrow> exn \<Rightarrow> exn" where
  "wrap_error env e =
     Exn ''RuntimeError''
       (''Error Message: '' @ exn_str e @ nl @ ''Stack Trace:'' @ nl @ format_exc env e)"

definition raised :: "world \<Rightarrow> operation list \<Rightarrow> exn \<Rightarrow> run" where
  "raised w ops e = \<lparr>run_ops = ops, run_outcome = Some e, run_world = w\<rparr>"

definition query_params :: "json \<Rightarrow> string \<Rightarrow> string \<Rightarrow> dict" where
  "query_params query_start query_end page_size =
     [(''from'', query_start), (''to'', JStr query_end), (''page'', JStr ''1''),
      (''language'', JStr ''en''), (''sortBy'', JStr ''publishedAt''),
      (''pageSize'', JStr page_size)]"

definition api_headers :: "string \<Rightarrow> dict" where
  "api_headers key =
     [(''Authorization'', JStr (''Bearer '' @ key)), (''Accept'', JStr ''application/json'')]"

text \<open>The world before a run: nothing requested, nothing logged.\<close>

definition w0 :: world where
  "w0 = \<lparr>trace = [], warnings = []\<rparr>"

text \<open>
  Everything before the \<open>try\<close> raises as it is; an exception inside the \<open>try\<close> is
  raised again as a \<open>RuntimeError\<close>; the final checkpoint follows the \<open>try\<close>. The
  line logged at level \<open>fine\<close> before it is not recorded.
\<close>

definition update :: "env \<Rightarrow> conf \<Rightarrow> dict \<Rightarrow> run" where
  "update env conf state =
     (let now = env_now env;
          from_ts = dict_get state ''to_ts''
      in case get_last_published_at env conf of
           Inl e \<Rightarrow> raised w0 [] e
         | Inr last_published_at \<Rightarrow>
        (case query_window from_ts last_published_at now of
           Inl e \<Rightarrow> raised w0 [] e
         | Inr (query_start, query_end) \<Rightarrow>
        (case dict_getitem conf ''PAGE_SIZE'' of
           Inl e \<Rightarrow> raised w0 [] e
         | Inr page_size \<Rightarrow>
        (case dict_getitem conf ''NEWS_API_KEY'' of
           Inl e \<Rightarrow> raised w0 [] e
         | Inr key \<Rightarrow>
             let params = query_params query_start query_end page_size;
                 headers = api_headers key
             in (case dict_getitem conf ''TOPIC'' of
                   Inl e \<Rightarrow> raised w0 [] (wrap_error env e)
                 | Inr topic_conf \<Rightarrow>
                (case sync_topics env conf headers params state (split_comma topic_conf) w0 of
                   (w, ops, Some e) \<Rightarrow> raised w ops (wrap_error env e)
                 | (w, ops, None) \<Rightarrow>
                     (case dict_getitem params ''to'' of
                        Inl e \<Rightarrow> raised w ops (wrap_error env e)
                      | Inr to_ts \<Rightarrow>
                          \<lparr>run_ops = ops @ [Checkpoint [(''to_ts'', to_ts)]],
                           run_outcome = None, run_world = w\<rparr>)))))))"

section \<open>Vocabulary of the properties\<close>

text \<open>The fields every record is built with, and the fields the enrichment adds.\<close>

definition BASE_KEYS :: "string list" where
  "BASE_KEYS = [''topic'', ''source'', ''published_at'', ''author'', ''title'', ''description'',
                ''content'', ''url'']"

definition ENRICHMENT_KEYS :: "string list" where
  "ENRICHMENT_KEYS = [''blue'', ''red'', ''p0'', ''p1'', ''p2'', ''p3'', ''p4'', ''p5'', ''p6'',
                      ''p7'']"

definition keys :: "dict \<Rightarrow> string set" where
  "keys d = fst ` set d"

definition enriched :: "dict \<Rightarrow> bool" where
  "enriched d = (set ENRICHMENT_KEYS \<subseteq> keys d)"

definition unenriched :: "dict \<Rightarrow> bool" where
  "unenriched d = (set ENRICHMENT_KEYS \<inter> keys d = {})"

text \<open>A raw article whose content is a string that is empty once trimmed.\<close>

definition blank_content :: "json \<Rightarrow> bool" where
  "blank_content article = (case py_getitem article ''content'' of
       Inr (JStr s) \<Rightarrow> py_strip s = []
     | _ \<Rightarrow> False)"

definition text_content :: "json \<Rightarrow> bool" where
  "text_content article = (case py_getitem article ''content'' of
       Inr (JStr s) \<Rightarrow> True
     | _ \<Rightarrow> False)"

text \<open>
  The enrichment service's answer as its interface describes it: \<open>data.document\<close> holds
  \<open>blue\<close>, \<open>red\<close> and a list \<open>p_values\<close> of exactly 8 elements.
\<close>

definition document_ok :: "json \<Rightarrow> bool" where
  "document_ok doc = (case doc of
       JObj d \<Rightarrow> (case (map_of d ''blue'', map_of d ''red'', map_of d ''p_values'') of
                    (Some _, Some _, Some (JArr ps)) \<Rightarrow> length ps = 8
                  | _ \<Rightarrow> False)
     | _ \<Rightarrow> False)"

definition tl_answer_ok :: "exn + response \<Rightarrow> bool" where
  "tl_answer_ok answer = (case answer of
       Inl _ \<Rightarrow> False
     | Inr r \<Rightarrow> raise_for_status TL_URL r = None \<and>
         (case and_then (json_body r) (\<lambda>j.
                 and_then (py_getitem j ''data'') (\<lambda>d. py_getitem d ''document'')) of
            Inl _ \<Rightarrow> False
          | Inr doc \<Rightarrow> document_ok doc))"

definition is_get :: "request \<Rightarrow> bool" where
  "is_get rq = (case rq of Get _ _ _ \<Rightarrow> True | Post _ _ _ \<Rightarrow> False)"

text \<open>The requests made to the source API, oldest first.\<close>

definition source_requests :: "world \<Rightarrow> request list" where
  "source_requests w = filter is_get (map fst (trace w))"

text \<open>
  A source request that failed: the request raised (a network error), or the body of
  the answer is not JSON.
\<close>

definition source_failure :: "event \<Rightarrow> exn option" where
  "source_failure ev = (case ev of
       (Get _ _ _, Inl e) \<Rightarrow> Some e
     | (Get _ _ _, Inr r) \<Rightarrow> (case json_body r of Inl e \<Rightarrow> Some e | Inr _ \<Rightarrow> None)
     | (Post _ _ _, _) \<Rightarrow> None)"

definition is_checkpoint :: "operation \<Rightarrow> bool" where
  "is_checkpoint x = (case x of Checkpoint _ \<Rightarrow> True | Upsert _ _ \<Rightarrow> False)"

text \<open>
  A record emitted for a raw article: its base fields are the ones the article gave,
  under the topic it was fetched for.
\<close>

definition emitted_for :: "string \<Rightarrow> json \<Rightarrow> dict \<Rightarrow> bool" where
  "emitted_for topic article d = (case article_data topic article of
       Inl _ \<Rightarrow> False
     | Inr d0 \<Rightarrow> (\<forall>k \<in> set BASE_KEYS. map_of d k = map_of d0 k))"

text \<open>The records of the upserts among some operations, in order.\<close>

definition records :: "operation list \<Rightarrow> dict list" where
  "records ops = concat (map (\<lambda>x. case x of Upsert _ d \<Rightarrow> [d] | Checkpoint _ \<Rightarrow> []) ops)"

text \<open>The operations of one completed topic: its records, then the checkpoint.\<close>

definition topic_ops :: "dict \<Rightarrow> dict list \<Rightarrow> operation list" where
  "topic_ops state recs = map (Upsert ''article'') recs @ [Checkpoint state]"

section \<open>Example runs\<close>

definition demo_conf :: "string \<Rightarrow> conf" where
  "demo_conf topics =
     [(''SNOWFLAKE_USER'', ''loader''), (''SNOWFLAKE_PASSWORD'', ''secret''),
      (''SNOWFLAKE_ACCOUNT'', ''acme''), (''SNOWFLAKE_WAREHOUSE'', ''wh''),
      (''SNOWFLAKE_DATABASE'', ''news''), (''SNOWFLAKE_SCHEMA'', ''public''),
      (''PAGE_SIZE'', ''20''), (''NEWS_API_KEY'', ''nk''), (''TABULA_KEY'', ''tk''),
      (''TOPIC'', topics)]"

definition demo_article :: "string \<Rightarrow> string \<Rightarrow> json" where
  "demo_article title content =
     JObj [(''source'', JObj [(''id'', JNull), (''name'', JStr ''Wire'')]),
           (''author'', JStr ''A. Writer''), (''title'', JStr title),
           (''description'', JStr ''d''), (''url'', JStr ''https://wire.example/a''),
           (''publishedAt'', JStr ''2024-01-09T08:00:00Z''), (''content'', JStr content)]"

definition answer_ok :: "json \<Rightarrow> exn + response" where
  "answer_ok body = Inr \<lparr>status_code = 200, reason = ''OK'', json_body = Inr body\<rparr>"

definition demo_document :: "json list \<Rightarrow> json" where
  "demo_document ps =
     JObj [(''data'', JObj [(''document'',
       JObj [(''blue'', JFloat 0.25), (''red'', JFloat 0.75), (''p_values'', JArr ps)])])]"

definition connection_error :: exn where
  "connection_error = Exn ''ConnectionError'' ''Max retries exceeded''"

text \<open>
  A source with three articles on \<open>ai\<close> (the second one blank), none on \<open>tech\<close>, and
  out of reach for any other topic; an enrichment service answering with the given
  \<open>p_values\<close>.
\<close>

definition demo_articles :: "json list" where
  "demo_articles =
     [demo_article ''one'' ''First text'', demo_article ''two'' ''  '',
      demo_article ''three'' ''Third text'']"

definition demo_body :: json where
  "demo_body = JObj [(''status'', JStr ''ok''), (''articles'', JArr demo_articles)]"

definition demo_http :: "json list \<Rightarrow> event list \<Rightarrow> request \<Rightarrow> exn + response" where
  "demo_http ps tr rq = (case rq of
       Get _ _ params \<Rightarrow>
         if map_of params ''q'' = Some (JStr ''ai'') then answer_ok demo_body
         else if map_of params ''q'' = Some (JStr ''tech'') then
           answer_ok (JObj [(''status'', JStr ''ok''), (''articles'', JArr [])])
         else Inl connection_error
     | Post _ _ _ \<Rightarrow> answer_ok (demo_document ps))"

definition eight :: "json list" where
  "eight = map JFloat [0.1, 0.2, 0.3, 0.4, 0.5, 0.6, 0.7, 0.8]"

definition demo_env :: "json list \<Rightarrow> env" where
  "demo_env ps =
     \<lparr>env_now = 1704888000, env_cwd = ''/srv/connector'',
      sf_connect = (\<lambda>_. None),
      sf_execute = (\<lambda>_. Inr (SnowflakeCursor (Some 1704790800))),
      http = demo_http ps,
      format_exc = (\<lambda>e. ''Traceback (most recent call last): '' @ exn_class e)\<rparr>"

definition demo_params :: "string \<Rightarrow> dict" where
  "demo_params topic =
     query_params (JStr ''2024-01-08T12:00:00'') ''2024-01-10T12:00:00'' ''20''
       @ [(''q'', JStr topic)]"

definition unreachable_env :: env where
  "unreachable_env = (demo_env eight)\<lparr>sf_connect := (\<lambda>_. Some connection_error)\<rparr>"

definition full_record :: dict where
  "full_record =
     [(''topic'', JStr ''ai''), (''source'', JStr ''Wire''),
      (''published_at'', JStr ''2024-01-09T08:00:00Z''), (''author'', JStr ''A. Writer''),
      (''title'', JStr ''one''), (''description'', JStr ''d''),
      (''content'', JStr ''First text''), (''url'', JStr ''https://wire.example/a''),
      (''blue'', JFloat 0.25), (''red'', JFloat 0.75), (''p0'', JFloat 0.1),
      (''p1'', JFloat 0.2), (''p2'', JFloat 0.3), (''p3'', JFloat 0.4), (''p4'', JFloat 0.5),
      (''p5'', JFloat 0.6), (''p6'', JFloat 0.7), (''p7'', JFloat 0.8)]"

definition partial_record :: dict where
  "partial_record =
     [(''topic'', JStr ''ai''), (''source'', JStr ''Wire''),
      (''published_at'', JStr ''2024-01-09T08:00:00Z''), (''author'', JStr ''A. Writer''),
      (''title'', JStr ''one''), (''description'', JStr ''d''),
      (''content'', JStr ''First text''), (''url'', JStr ''https://wire.example/a''),
      (''blue'', JFloat 0.25), (''red'', JFloat 0.75), (''p0'', JFloat 0.1),
      (''p1'', JFloat 0.2), (''p2'', JFloat 0.3)]"

definition demo_state :: dict where
  "demo_state = [(''to_ts'', JStr ''2024-01-09T00:00:00''), (''cursor'', JInt 7)]"


section \<open>Timestamps and the query window\<close>

lemma strftime_nonempty: "strftime t \<noteq> []"
  by (cases "civil_from_days (t div 86400)") (simp add: strftime_def pad4_def pad2_def Let_def)

lemma py_lt_str: "py_lt (JStr x) (JStr y) = Inr (x < y)"
  by (simp add: py_lt_def)

lemma query_window_end: "query_window from_ts lp now = Inr (qs, qe) \<Longrightarrow> qe = strftime now"
  by (auto simp add: query_window_def and_then_def Let_def split: sum.splits)

text \<open>
  Claim C1. \<open>from_ts\<close> is \<open>state.get("to_ts")\<close>: absent (or null), or a timestamp string,
  which is not empty. The destination's maximum, when there is one, is formatted with
  \<open>strftime\<close>, as is the fallback two days before the run. Then \<open>query_start\<close> is the
  least of the candidates that are there, in the order of strings, \<open>query_end\<close> is the
  time of the run in the same format, and \<open>query_start\<close> is at most the fallback.
\<close>

theorem query_window_min:
  assumes "from_ts = JNull \<or> (\<exists>s. from_ts = JStr s \<and> s \<noteq> [])"
  shows "query_window from_ts (map_option strftime dest_max) now =
           Inr (JStr (Min ({s. from_ts = JStr s} \<union> strftime ` set_option dest_max
                            \<union> {strftime (now - INIT_DELTA)})),
                strftime now)
         \<and> Min ({s. from_ts = JStr s} \<union> strftime ` set_option dest_max
                  \<union> {strftime (now - INIT_DELTA)}) \<le> strftime (now - INIT_DELTA)"
proof -
  let ?safety = "strftime (now - INIT_DELTA)"
  let ?C = "{s. from_ts = JStr s} \<union> strftime ` set_option dest_max \<union> {?safety}"
  have fin: "finite ?C"
  proof -
    have "{s. from_ts = JStr s} \<subseteq> (case from_ts of JStr s \<Rightarrow> {s} | _ \<Rightarrow> {})"
      by (auto split: json.splits)
    then have "finite {s. from_ts = JStr s}"
      by (rule finite_subset) (simp split: json.splits)
    then show ?thesis by (cases dest_max) simp_all
  qed
  have le: "Min ?C \<le> ?safety"
    using fin by (intro Min_le) simp_all
  have eq: "query_window from_ts (map_option strftime dest_max) now
              = Inr (JStr (Min ?C), strftime now)"
  proof (cases dest_max)
    case None
    from assms show ?thesis
    proof
      assume "from_ts = JNull"
      with None show ?thesis
        by (simp add: query_window_def py_min_def truthy_def and_then_def strftime_nonempty
            Let_def)
    next
      assume "\<exists>s. from_ts = JStr s \<and> s \<noteq> []"
      then obtain s where s: "from_ts = JStr s" "s \<noteq> []" by blast
      then have "{u. from_ts = JStr u} = {s}" by auto
      with None s show ?thesis
        by (auto simp add: query_window_def py_min_def truthy_def and_then_def
            strftime_nonempty py_lt_str min_def Let_def)
    qed
  next
    case (Some d)
    from assms show ?thesis
    proof
      assume "from_ts = JNull"
      with Some show ?thesis
        by (auto simp add: query_window_def py_min_def truthy_def and_then_def
            strftime_nonempty py_lt_str min_def Let_def)
    next
      assume "\<exists>s. from_ts = JStr s \<and> s \<noteq> []"
      then obtain s where s: "from_ts = JStr s" "s \<noteq> []" by blast
      then have "{u. from_ts = JStr u} = {s}" by auto
      with Some s show ?thesis
        by (auto simp add: query_window_def py_min_def truthy_def and_then_def
            strftime_nonempty py_lt_str min_def Let_def)
    qed
  qed
  from eq le show ?thesis by simp
qed

theorem query_window_min_witness:
  "(JStr ''2024-01-09T00:00:00'' = JNull
      \<or> (\<exists>s. JStr ''2024-01-09T00:00:00'' = JStr s \<and> s \<noteq> []))
   \<and> query_window (JStr ''2024-01-09T00:00:00'') (map_option strftime (Some 1704790800))
         1704888000
       = Inr (JStr ''2024-01-08T12:00:00'', ''2024-01-10T12:00:00'')
   \<and> ''2024-01-08T12:00:00'' \<le> strftime (1704888000 - INIT_DELTA)"
proof -
  have h: "JStr ''2024-01-09T00:00:00'' = JNull
             \<or> (\<exists>s. JStr ''2024-01-09T00:00:00'' = JStr s \<and> s \<noteq> [])"
    by simp
  have t1: "strftime 1704888000 = ''2024-01-10T12:00:00''" by code_simp
  have t2: "strftime (1704888000 - INIT_DELTA) = ''2024-01-08T12:00:00''" by code_simp
  have t3: "strftime 1704790800 = ''2024-01-09T09:00:00''" by code_simp
  have m: "Min ({s. JStr ''2024-01-09T00:00:00'' = JStr s}
                 \<union> strftime ` set_option (Some 1704790800)
                 \<union> {strftime (1704888000 - INIT_DELTA)}) = ''2024-01-08T12:00:00''"
    by (simp add: t2 t3)
  from query_window_min [OF h, of "Some 1704790800" 1704888000]
  have "query_window (JStr ''2024-01-09T00:00:00'') (map_option strftime (Some 1704790800))
          1704888000
        = Inr (JStr (Min ({s. JStr ''2024-01-09T00:00:00'' = JStr s}
                 \<union> strftime ` set_option (Some 1704790800)
                 \<union> {strftime (1704888000 - INIT_DELTA)})), strftime 1704888000)"
    by (rule conjunct1)
  then have "query_window (JStr ''2024-01-09T00:00:00'')
          (map_option strftime (Some 1704790800)) 1704888000
        = Inr (JStr ''2024-01-08T12:00:00'', ''2024-01-10T12:00:00'')"
    by (simp only: m t1)
  moreover have "''2024-01-08T12:00:00'' \<le> strftime (1704888000 - INIT_DELTA)"
    by (simp add: t2)
  ultimately show ?thesis using h by blast
qed

section \<open>The destination's watermark\<close>

text \<open>
  Claim C9. Once the connection is open, \<open>get_last_published_at\<close> returns \<open>None\<close>
  whatever the table holds: the subscript on the cursor raises, the bare \<open>except\<close>
  swallows it and \<open>result\<close> stays \<open>None\<close>. So the function never returns a timestamp,
  and the destination's maximum never enters the window.
\<close>

theorem get_last_published_at_none:
  "(connect_args conf = Inr args \<and> sf_connect env args = None
      \<longrightarrow> get_last_published_at env conf = Inr None)
   \<and> get_last_published_at env conf \<noteq> Inr (Some s)"
  by (simp add: get_last_published_at_def cursor_getitem_def and_then_def Let_def
      split: sum.splits option.splits)

theorem get_last_published_at_none_witness:
  "connect_args (demo_conf ''ai'') =
     Inr [(''user'', ''loader''), (''password'', ''secret''), (''account'', ''acme''),
          (''warehouse'', ''wh''), (''database'', ''news''), (''schema'', ''public'')]
   \<and> sf_connect (demo_env eight)
       [(''user'', ''loader''), (''password'', ''secret''), (''account'', ''acme''),
        (''warehouse'', ''wh''), (''database'', ''news''), (''schema'', ''public'')] = None
   \<and> sf_execute (demo_env eight) ''select max(published_at) from article''
       = Inr (SnowflakeCursor (Some 1704790800))
   \<and> get_last_published_at (demo_env eight) (demo_conf ''ai'') = Inr None"
proof -
  have a: "connect_args (demo_conf ''ai'') =
     Inr [(''user'', ''loader''), (''password'', ''secret''), (''account'', ''acme''),
          (''warehouse'', ''wh''), (''database'', ''news''), (''schema'', ''public'')]"
    by (simp add: connect_args_def demo_conf_def dict_getitem_def and_then_def)
  have b: "sf_connect (demo_env eight)
       [(''user'', ''loader''), (''password'', ''secret''), (''account'', ''acme''),
        (''warehouse'', ''wh''), (''database'', ''news''), (''schema'', ''public'')] = None"
    by (simp add: demo_env_def)
  have c: "sf_execute (demo_env eight) ''select max(published_at) from article''
       = Inr (SnowflakeCursor (Some 1704790800))"
    by (simp add: demo_env_def)
  from get_last_published_at_none [of "demo_conf ''ai''" _ "demo_env eight"] a b
  have "get_last_published_at (demo_env eight) (demo_conf ''ai'') = Inr None"
    by blast
  with a b c show ?thesis by simp
qed


section \<open>Enrichment of one record\<close>

lemma keys_update: "keys (AList.update k v d) = insert k (keys d)"
  by (simp add: keys_def dom_update)

lemma fields_TL_FIELDS: "map fst TL_FIELDS = ENRICHMENT_KEYS"
  by (simp add: TL_FIELDS_def ENRICHMENT_KEYS_def)

lemma assign_fields_frame:
  "assign_fields doc fs data = (data', err) \<Longrightarrow>
     keys data \<subseteq> keys data' \<and> keys data' \<subseteq> keys data \<union> fst ` set fs
     \<and> (\<forall>k. k \<notin> fst ` set fs \<longrightarrow> map_of data' k = map_of data k)"
proof (induction fs arbitrary: data)
  case Nil
  then show ?case by simp
next
  case (Cons f fs)
  obtain k src where f: "f = (k, src)" by (cases f)
  show ?case
  proof (cases "tl_value doc src")
    case (Inl e)
    with Cons.prems f show ?thesis by auto
  next
    case (Inr v)
    with Cons.prems f have "assign_fields doc fs (AList.update k v data) = (data', err)"
      by simp
    from Cons.IH [OF this] f show ?thesis
      by (auto simp add: keys_update update_conv')
  qed
qed

lemma assign_fields_done:
  "assign_fields doc fs data = (data', None) \<Longrightarrow> keys data' = keys data \<union> fst ` set fs"
proof (induction fs arbitrary: data)
  case Nil
  then show ?case by simp
next
  case (Cons f fs)
  obtain k src where f: "f = (k, src)" by (cases f)
  show ?case
  proof (cases "tl_value doc src")
    case (Inl e)
    with Cons.prems f show ?thesis by simp
  next
    case (Inr v)
    with Cons.prems f have "assign_fields doc fs (AList.update k v data) = (data', None)"
      by simp
    from Cons.IH [OF this] f show ?thesis
      by (auto simp add: keys_update)
  qed
qed

lemma assign_fields_stopped:
  "assign_fields doc fs data = (data', Some e) \<Longrightarrow> distinct (map fst fs) \<Longrightarrow>
     fst ` set fs \<inter> keys data = {} \<Longrightarrow> \<exists>k \<in> fst ` set fs. k \<notin> keys data'"
proof (induction fs arbitrary: data)
  case Nil
  then show ?case by simp
next
  case (Cons f fs)
  obtain k src where f: "f = (k, src)" by (cases f)
  show ?case
  proof (cases "tl_value doc src")
    case (Inl e')
    with Cons.prems f show ?thesis by auto
  next
    case (Inr v)
    with Cons.prems f have run: "assign_fields doc fs (AList.update k v data) = (data', Some e)"
      by simp
    from Cons.prems f have d: "distinct (map fst fs)" and nk: "k \<notin> fst ` set fs"
      by auto
    from Cons.prems(3) nk have "fst ` set fs \<inter> keys (AList.update k v data) = {}"
      by (auto simp add: keys_update)
    from Cons.IH [OF run d this] show ?thesis by auto
  qed
qed

lemma document_ok_values:
  assumes "document_ok doc"
  shows "\<exists>b r ps. py_getitem doc ''blue'' = Inr b \<and> py_getitem doc ''red'' = Inr r
           \<and> py_getitem doc ''p_values'' = Inr (JArr ps) \<and> length ps = 8"
  using assms
  by (auto simp add: document_ok_def py_getitem_def dict_getitem_def
      split: json.splits option.splits)

lemma assign_fields_document_ok:
  assumes "document_ok doc"
  shows "snd (assign_fields doc TL_FIELDS data) = None"
proof -
  from document_ok_values [OF assms] obtain b r ps where
    v: "py_getitem doc ''blue'' = Inr b" "py_getitem doc ''red'' = Inr r"
       "py_getitem doc ''p_values'' = Inr (JArr ps)" "length ps = 8"
    by blast
  then show ?thesis
    by (simp add: TL_FIELDS_def tl_value_def and_then_def py_index_def)
qed


lemma enrich_data:
  assumes "enrich env conf data w = (w1, data1, err)"
  shows "(data1 = data \<and> err \<noteq> None)
       \<or> (\<exists>doc. assign_fields doc TL_FIELDS data = (data1, err))"
proof (cases "dict_getitem conf ''TABULA_KEY''")
  case Inl
  with assms show ?thesis by (auto simp add: enrich_def)
next
  case key: (Inr tl_key)
  show ?thesis
  proof (cases "strip_method (dict_get data ''content'')")
    case Inl
    with assms key show ?thesis by (auto simp add: enrich_def)
  next
    case content: (Inr content)
    let ?rq = "Post TL_URL [(''Auth'', JStr tl_key), (''accept'', JStr ''application/json'')]
                 (JObj [(''config'', TL_CONF), (''text'', JStr content)])"
    show ?thesis
    proof (cases "content = []")
      case True
      with assms key content show ?thesis by (auto simp add: enrich_def)
    next
      case nonblank: False
      show ?thesis
      proof (cases "http env (trace w) ?rq")
        case Inl
        with assms key content nonblank show ?thesis by (auto simp add: enrich_def Let_def)
      next
        case answer: (Inr r)
        show ?thesis
        proof (cases "raise_for_status TL_URL r")
          case Some
          with assms key content nonblank answer show ?thesis
            by (auto simp add: enrich_def Let_def)
        next
          case status: None
          show ?thesis
          proof (cases "and_then (json_body r) (\<lambda>j. and_then (py_getitem j ''data'')
                          (\<lambda>d. py_getitem d ''document''))")
            case Inl
            with assms key content nonblank answer status show ?thesis
              by (auto simp add: enrich_def Let_def)
          next
            case (Inr doc)
            with assms key content nonblank answer status
            have "assign_fields doc TL_FIELDS data = (data1, err)"
              by (auto simp add: enrich_def Let_def split: prod.splits)
            then show ?thesis by blast
          qed
        qed
      qed
    qed
  qed
qed

lemma enrich_warnings: "enrich env conf data w = (w1, data1, err) \<Longrightarrow> warnings w1 = warnings w"
  by (auto simp add: enrich_def Let_def split: sum.splits option.splits if_splits prod.splits)

lemma enrich_source_requests:
  "enrich env conf data w = (w1, data1, err) \<Longrightarrow> source_requests w1 = source_requests w"
  by (auto simp add: enrich_def Let_def source_requests_def is_get_def
      split: sum.splits option.splits if_splits prod.splits)

lemma enrich_source_failure:
  "enrich env conf data w = (w1, data1, err) \<Longrightarrow> ev \<in> set (trace w1) \<Longrightarrow>
     source_failure ev = Some e \<Longrightarrow> ev \<in> set (trace w)"
  by (auto simp add: enrich_def Let_def source_failure_def
      split: sum.splits option.splits if_splits prod.splits)

lemma enrich_frame:
  assumes "enrich env conf data w = (w1, data1, err)"
  shows "keys data \<subseteq> keys data1 \<and> keys data1 \<subseteq> keys data \<union> set ENRICHMENT_KEYS
         \<and> (\<forall>k. k \<notin> set ENRICHMENT_KEYS \<longrightarrow> map_of data1 k = map_of data k)"
proof -
  have s: "fst ` set TL_FIELDS = set ENRICHMENT_KEYS"
    using fields_TL_FIELDS by (metis set_map)
  from enrich_data [OF assms] show ?thesis
  proof
    assume "\<exists>doc. assign_fields doc TL_FIELDS data = (data1, err)"
    then obtain doc where "assign_fields doc TL_FIELDS data = (data1, err)" ..
    from assign_fields_frame [OF this] show ?thesis by (simp add: s)
  qed auto
qed

lemma enrich_done:
  assumes "enrich env conf data w = (w1, data1, None)"
  shows "enriched data1"
proof -
  have s: "fst ` set TL_FIELDS = set ENRICHMENT_KEYS"
    using fields_TL_FIELDS by (metis set_map)
  from enrich_data [OF assms] obtain doc where
    "assign_fields doc TL_FIELDS data = (data1, None)"
    by auto
  from assign_fields_done [OF this] show ?thesis
    by (simp add: enriched_def s)
qed

lemma enrich_failed:
  assumes "enrich env conf data w = (w1, data1, Some e)"
    and "set ENRICHMENT_KEYS \<inter> keys data = {}"
  shows "\<not> enriched data1"
proof -
  have s: "fst ` set TL_FIELDS = set ENRICHMENT_KEYS"
    using fields_TL_FIELDS by (metis set_map)
  have d: "distinct (map fst TL_FIELDS)"
    by (simp add: TL_FIELDS_def)
  from enrich_data [OF assms(1)] show ?thesis
  proof
    assume "\<exists>doc. assign_fields doc TL_FIELDS data = (data1, Some e)"
    then obtain doc where "assign_fields doc TL_FIELDS data = (data1, Some e)" ..
    from assign_fields_stopped [OF this d] assms(2) show ?thesis
      by (auto simp add: enriched_def s)
  next
    assume "data1 = data \<and> Some e \<noteq> None"
    with assms(2) show ?thesis
      by (auto simp add: enriched_def ENRICHMENT_KEYS_def)
  qed
qed

lemma enrich_blank:
  assumes "dict_get data ''content'' = JStr s" and "py_strip s = []"
  shows "\<exists>e. enrich env conf data w = (w, data, Some e)"
  using assms
  by (simp add: enrich_def strip_method_def split: sum.splits)

lemma enrich_ok:
  assumes "dict_get data ''content'' = JStr s" and "py_strip s \<noteq> []"
    and "map_of conf ''TABULA_KEY'' = Some key"
    and "\<And>tr rq. \<not> is_get rq \<Longrightarrow> tl_answer_ok (http env tr rq)"
  shows "\<exists>w1 data1. enrich env conf data w = (w1, data1, None)"
proof -
  let ?rq = "Post TL_URL [(''Auth'', JStr key), (''accept'', JStr ''application/json'')]
               (JObj [(''config'', TL_CONF), (''text'', JStr (py_strip s))])"
  have "tl_answer_ok (http env (trace w) ?rq)"
    by (rule assms(4)) (simp add: is_get_def)
  then obtain r doc where r: "http env (trace w) ?rq = Inr r"
    "raise_for_status TL_URL r = None"
    "and_then (json_body r) (\<lambda>j. and_then (py_getitem j ''data'')
        (\<lambda>d. py_getitem d ''document'')) = Inr doc"
    "document_ok doc"
    by (auto simp add: tl_answer_ok_def split: sum.splits)
  from assign_fields_document_ok [OF r(4), of data]
  obtain data1 where "assign_fields doc TL_FIELDS data = (data1, None)"
    by (cases "assign_fields doc TL_FIELDS data") auto
  with assms(1-3) r show ?thesis
    by (simp add: enrich_def strip_method_def dict_getitem_def Let_def)
qed


section \<open>The articles of one topic\<close>

lemma records_simps [simp]:
  "records [] = []"
  "records (Upsert t d # ops) = d # records ops"
  "records (Checkpoint s # ops) = records ops"
  "records (xs @ ys) = records xs @ records ys"
  by (simp_all add: records_def)

lemma records_upserts [simp]: "records (map (Upsert t) ds) = ds"
  by (induction ds) simp_all

lemma article_data_shape:
  assumes "article_data topic article = Inr d"
  shows "keys d = set BASE_KEYS \<and> set ENRICHMENT_KEYS \<inter> keys d = {}
         \<and> py_getitem article ''content'' = Inr (dict_get d ''content'')
         \<and> map_of d ''topic'' = Some (JStr topic)"
  using assms
  by (auto simp add: article_data_def and_then_def keys_def BASE_KEYS_def ENRICHMENT_KEYS_def
      dict_get_def split: sum.splits)

lemma sync_articles_shape:
  "sync_articles env conf topic arts w = (w', ops, r) \<Longrightarrow>
     ops = map (Upsert ''article'') (records ops)
     \<and> (\<forall>d \<in> set (records ops). set BASE_KEYS \<subseteq> keys d)
     \<and> (r = None \<longrightarrow> length (records ops) = length arts)
     \<and> source_requests w' = source_requests w
     \<and> (\<forall>ev e. ev \<in> set (trace w') \<longrightarrow> source_failure ev = Some e \<longrightarrow> ev \<in> set (trace w))"
proof (induction arts arbitrary: w w' ops r)
  case Nil
  then show ?case by simp
next
  case (Cons a arts)
  show ?case
  proof (cases "article_data topic a")
    case (Inl e)
    with Cons.prems show ?thesis by auto
  next
    case (Inr data)
    obtain w1 data1 err where en: "enrich env conf data w = (w1, data1, err)"
      by (cases "enrich env conf data w") auto
    define w2 where
      "w2 = (case err of None \<Rightarrow> w1
             | Some e \<Rightarrow> w1\<lparr>warnings := warnings w1 @ [tl_warning env e]\<rparr>)"
    obtain w3 ops3 r3 where rest: "sync_articles env conf topic arts w2 = (w3, ops3, r3)"
      by (cases "sync_articles env conf topic arts w2") auto
    from Cons.prems Inr en rest have res: "w' = w3" "ops = Upsert ''article'' data1 # ops3" "r = r3"
      by (simp_all add: w2_def)
    have tr2: "trace w2 = trace w1"
      by (simp add: w2_def split: option.splits)
    have rq2: "source_requests w2 = source_requests w"
      using enrich_source_requests [OF en] tr2 by (simp add: source_requests_def)
    from article_data_shape [OF Inr] enrich_frame [OF en]
    have base: "set BASE_KEYS \<subseteq> keys data1" by auto
    from Cons.IH [OF rest] res base rq2 tr2 enrich_source_failure [OF en]
    show ?thesis by auto
  qed
qed


lemma base_not_enrichment: "k \<in> set BASE_KEYS \<Longrightarrow> k \<notin> set ENRICHMENT_KEYS"
  by (auto simp add: BASE_KEYS_def ENRICHMENT_KEYS_def)

lemma sync_articles_emits:
  assumes "sync_articles env conf topic arts w = (w', ops, r)"
    and "\<forall>a \<in> set arts. \<exists>d. article_data topic a = Inr d"
  shows "r = None \<and> list_all2 (emitted_for topic) arts (records ops)
         \<and> length (warnings w')
             = length (warnings w) + length (filter (\<lambda>d. \<not> enriched d) (records ops))"
  using assms
proof (induction arts arbitrary: w w' ops r)
  case Nil
  then show ?case by simp
next
  case (Cons a arts)
  from Cons.prems(2) obtain data where data: "article_data topic a = Inr data"
    by auto
  obtain w1 data1 err where en: "enrich env conf data w = (w1, data1, err)"
    by (cases "enrich env conf data w") auto
  define w2 where
    "w2 = (case err of None \<Rightarrow> w1
           | Some e \<Rightarrow> w1\<lparr>warnings := warnings w1 @ [tl_warning env e]\<rparr>)"
  obtain w3 ops3 r3 where rest: "sync_articles env conf topic arts w2 = (w3, ops3, r3)"
    by (cases "sync_articles env conf topic arts w2") auto
  from Cons.prems(1) data en rest
  have res: "w' = w3" "ops = Upsert ''article'' data1 # ops3" "r = r3"
    by (simp_all add: w2_def)
  from Cons.prems(2) have "\<forall>a \<in> set arts. \<exists>d. article_data topic a = Inr d"
    by simp
  from Cons.IH [OF rest this]
  have ih: "r3 = None" "list_all2 (emitted_for topic) arts (records ops3)"
    "length (warnings w3)
       = length (warnings w2) + length (filter (\<lambda>d. \<not> enriched d) (records ops3))"
    by simp_all
  from enrich_frame [OF en] have "emitted_for topic a data1"
    by (simp add: emitted_for_def data base_not_enrichment)
  moreover have "length (warnings w2) = length (warnings w) + (if enriched data1 then 0 else 1)"
  proof (cases err)
    case None
    with en have "enriched data1" by (auto dest: enrich_done)
    with None enrich_warnings [OF en] show ?thesis by (simp add: w2_def)
  next
    case (Some e)
    with en article_data_shape [OF data] have "\<not> enriched data1"
      by (auto dest: enrich_failed)
    with Some enrich_warnings [OF en] show ?thesis by (simp add: w2_def)
  qed
  ultimately show ?case using ih res by simp
qed

lemma sync_articles_enriches:
  assumes "sync_articles env conf topic arts w = (w', ops, r)"
    and "\<forall>a \<in> set arts. \<exists>d. article_data topic a = Inr d"
    and "\<forall>a \<in> set arts. text_content a"
    and "map_of conf ''TABULA_KEY'' = Some key"
    and "\<And>tr rq. \<not> is_get rq \<Longrightarrow> tl_answer_ok (http env tr rq)"
  shows "list_all2 (\<lambda>a d. if blank_content a then unenriched d else enriched d)
           arts (records ops)"
  using assms(1-3)
proof (induction arts arbitrary: w w' ops r)
  case Nil
  then show ?case by simp
next
  case (Cons a arts)
  from Cons.prems(2) obtain data where data: "article_data topic a = Inr data"
    by auto
  obtain w1 data1 err where en: "enrich env conf data w = (w1, data1, err)"
    by (cases "enrich env conf data w") auto
  define w2 where
    "w2 = (case err of None \<Rightarrow> w1
           | Some e \<Rightarrow> w1\<lparr>warnings := warnings w1 @ [tl_warning env e]\<rparr>)"
  obtain w3 ops3 r3 where rest: "sync_articles env conf topic arts w2 = (w3, ops3, r3)"
    by (cases "sync_articles env conf topic arts w2") auto
  from Cons.prems(1) data en rest
  have res: "ops = Upsert ''article'' data1 # ops3"
    by (simp_all add: w2_def)
  from Cons.prems have "\<forall>a \<in> set arts. \<exists>d. article_data topic a = Inr d"
    "\<forall>a \<in> set arts. text_content a"
    by simp_all
  from Cons.IH [OF rest this]
  have ih: "list_all2 (\<lambda>a d. if blank_content a then unenriched d else enriched d)
              arts (records ops3)" .
  from Cons.prems(3) article_data_shape [OF data] obtain s where
    s: "dict_get data ''content'' = JStr s" "py_getitem a ''content'' = Inr (JStr s)"
    by (auto simp add: text_content_def split: sum.splits json.splits)
  have "if blank_content a then unenriched data1 else enriched data1"
  proof (cases "py_strip s = []")
    case True
    from enrich_blank [OF s(1) True, of env conf w] en have "data1 = data" by auto
    moreover from article_data_shape [OF data] have "unenriched data"
      unfolding unenriched_def by blast
    moreover from True s(2) have "blank_content a"
      by (simp add: blank_content_def)
    ultimately show ?thesis by simp
  next
    case False
    from enrich_ok [OF s(1) False assms(4) assms(5), of w] en have "err = None" by auto
    with en have "enriched data1" by (auto dest: enrich_done)
    moreover from False s(2) have "\<not> blank_content a"
      by (simp add: blank_content_def)
    ultimately show ?thesis by simp
  qed
  with ih res show ?case by simp
qed


section \<open>One topic\<close>

lemma source_requests_append:
  "trace w1 = trace w @ evs \<Longrightarrow>
     source_requests w1 = source_requests w @ filter is_get (map fst evs)"
  by (simp add: source_requests_def)

lemma sync_items_shape:
  assumes "sync_items env headers params state topic conf w = (w', ops, r)"
  shows "source_requests w' = source_requests w @ [Get BASE_API_URL headers params]
         \<and> ops = map (Upsert ''article'') (records ops)
                   @ (if r = None then [Checkpoint state] else [])
         \<and> (\<forall>d \<in> set (records ops). set BASE_KEYS \<subseteq> keys d)
         \<and> (\<forall>ev e. ev \<in> set (trace w') \<longrightarrow> source_failure ev = Some e \<longrightarrow>
                ev \<in> set (trace w) \<or> (r = Some e \<and> ops = []))"
proof -
  let ?rq = "Get BASE_API_URL headers params"
  define answer where "answer = http env (trace w) ?rq"
  define w1 where "w1 = w\<lparr>trace := trace w @ [(?rq, answer)]\<rparr>"
  have rq1: "source_requests w1 = source_requests w @ [?rq]"
    by (simp add: w1_def source_requests_def is_get_def)
  show ?thesis
  proof (cases "and_then answer (\<lambda>response. and_then (json_body response)
                  (\<lambda>body. and_then (py_get body ''articles'') py_iter))")
    case (Inl e)
    with assms have res: "w' = w1" "ops = []" "r = Some e"
      by (simp_all add: sync_items_def Let_def answer_def w1_def)
    have "source_failure (?rq, answer) = Some e' \<Longrightarrow> e' = e" for e'
      using Inl
      by (auto simp add: source_failure_def and_then_def split: sum.splits)
    with res rq1 show ?thesis
      by (auto simp add: w1_def)
  next
    case (Inr articles)
    obtain w2 ops2 r2 where sa: "sync_articles env conf topic articles w1 = (w2, ops2, r2)"
      by (cases "sync_articles env conf topic articles w1") auto
    with assms Inr have res: "w' = w2"
      "ops = ops2 @ (if r2 = None then [Checkpoint state] else [])" "r = r2"
      by (auto simp add: sync_items_def Let_def answer_def w1_def split: option.splits)
    have nofail: "source_failure (?rq, answer) = None"
      using Inr
      by (auto simp add: source_failure_def and_then_def split: sum.splits)
    from sync_articles_shape [OF sa]
    have sh: "ops2 = map (Upsert ''article'') (records ops2)"
      "\<forall>d \<in> set (records ops2). set BASE_KEYS \<subseteq> keys d"
      "source_requests w2 = source_requests w1"
      "\<forall>ev e. ev \<in> set (trace w2) \<longrightarrow> source_failure ev = Some e \<longrightarrow> ev \<in> set (trace w1)"
      by blast+
    have rec: "records ops = records ops2"
      using res(2) by (simp split: if_splits)
    have "ops = map (Upsert ''article'') (records ops)
                   @ (if r = None then [Checkpoint state] else [])"
      using res(2,3) sh(1) rec by simp
    moreover have "ev \<in> set (trace w)"
      if "ev \<in> set (trace w')" "source_failure ev = Some e" for ev e
    proof -
      from that sh(4) res(1) have "ev \<in> set (trace w1)" by blast
      then have "ev = (?rq, answer) \<or> ev \<in> set (trace w)"
        by (auto simp add: w1_def)
      with nofail that(2) show ?thesis by auto
    qed
    ultimately show ?thesis
      using sh(2,3) rec rq1 res(1) by auto
  qed
qed

lemma sync_items_fetched:
  assumes "http env (trace w) (Get BASE_API_URL headers params) = Inr resp"
    and "json_body resp = Inr body"
    and "py_get body ''articles'' = Inr (JArr arts)"
    and "sync_items env headers params state topic conf w = (w', ops, r)"
  shows "\<exists>w1 w2 ops2. trace w1 = trace w @ [(Get BASE_API_URL headers params, Inr resp)]
           \<and> warnings w1 = warnings w
           \<and> sync_articles env conf topic arts w1 = (w2, ops2, r) \<and> w' = w2
           \<and> ops = ops2 @ (if r = None then [Checkpoint state] else [])"
proof -
  let ?w1 = "w\<lparr>trace := trace w @ [(Get BASE_API_URL headers params, Inr resp)]\<rparr>"
  obtain w2 ops2 r2 where sa: "sync_articles env conf topic arts ?w1 = (w2, ops2, r2)"
    by (cases "sync_articles env conf topic arts ?w1") auto
  with assms have "w' = w2 \<and> r = r2 \<and> ops = ops2 @ (if r2 = None then [Checkpoint state] else [])"
    by (auto simp add: sync_items_def Let_def and_then_def py_iter_def split: option.splits)
  with sa show ?thesis
    by (intro exI [of _ ?w1] exI [of _ w2] exI [of _ ops2]) simp
qed


lemma filter_length_related:
  "list_all2 (\<lambda>a d. P a = Q d) xs ys \<Longrightarrow> length (filter P xs) = length (filter Q ys)"
  by (induction rule: list_all2_induct) auto

lemma enriched_not_unenriched: "enriched d \<Longrightarrow> \<not> unenriched d"
  by (auto simp add: enriched_def unenriched_def ENRICHMENT_KEYS_def)

lemma unenriched_not_enriched: "unenriched d \<Longrightarrow> \<not> enriched d"
  by (auto simp add: enriched_def unenriched_def ENRICHMENT_KEYS_def)

text \<open>
  Claim C2. The source answered a topic with articles that have every field the record
  is built from. Then, whatever the enrichment service and the configuration do, the
  topic ends without an exception: one upsert per article, in order, with the article's
  base fields, then the checkpoint; and each record that is not fully enriched has its
  warning in the log. When moreover the contents are strings, the enrichment key is
  configured and the service answers as its interface says, a record has no enrichment
  field exactly when its article's content is blank after trimming, and every other
  record has them all: with exactly one blank article, exactly one record lacks them.
\<close>

theorem enrichment_failures_isolated:
  assumes "http env (trace w) (Get BASE_API_URL headers params) = Inr resp"
    and "json_body resp = Inr body"
    and "py_get body ''articles'' = Inr (JArr arts)"
    and "\<forall>a \<in> set arts. \<exists>d. article_data topic a = Inr d"
    and "sync_items env headers params state topic conf w = (w', ops, r)"
  shows "r = None \<and> ops = topic_ops state (records ops)
       \<and> length (records ops) = length arts
       \<and> list_all2 (emitted_for topic) arts (records ops)
       \<and> length (warnings w')
           = length (warnings w) + length (filter (\<lambda>d. \<not> enriched d) (records ops))
       \<and> ((\<forall>a \<in> set arts. text_content a) \<and> (\<exists>key. map_of conf ''TABULA_KEY'' = Some key)
            \<and> (\<forall>tr rq. \<not> is_get rq \<longrightarrow> tl_answer_ok (http env tr rq)) \<longrightarrow>
             list_all2 (\<lambda>a d. if blank_content a then unenriched d else enriched d)
               arts (records ops)
             \<and> (length (filter blank_content arts) = 1 \<longrightarrow>
                  length (filter unenriched (records ops)) = 1
                  \<and> length (filter (\<lambda>d. \<not> enriched d) (records ops)) = 1))"
proof -
  from sync_items_fetched [OF assms(1,2,3,5)] obtain w1 ops2 where
    w1: "warnings w1 = warnings w"
    and sa: "sync_articles env conf topic arts w1 = (w', ops2, r)"
    and ops: "ops = ops2 @ (if r = None then [Checkpoint state] else [])"
    by blast
  from sync_articles_emits [OF sa assms(4)] have em: "r = None"
    "list_all2 (emitted_for topic) arts (records ops2)"
    "length (warnings w')
       = length (warnings w1) + length (filter (\<lambda>d. \<not> enriched d) (records ops2))"
    by simp_all
  from sync_articles_shape [OF sa] have sh: "ops2 = map (Upsert ''article'') (records ops2)"
    by simp
  have rec: "records ops = records ops2"
    using ops em(1) by simp
  have a: "ops = topic_ops state (records ops)"
    using ops em(1) sh rec by (simp add: topic_ops_def)
  have b: "length (records ops) = length arts"
    using em(2) rec by (simp add: list_all2_lengthD)
  have c: "list_all2 (\<lambda>a d. if blank_content a then unenriched d else enriched d)
             arts (records ops)
           \<and> (length (filter blank_content arts) = 1 \<longrightarrow>
                length (filter unenriched (records ops)) = 1
                \<and> length (filter (\<lambda>d. \<not> enriched d) (records ops)) = 1)"
    if t: "\<forall>a \<in> set arts. text_content a" and k: "map_of conf ''TABULA_KEY'' = Some key"
      and tl: "\<forall>tr rq. \<not> is_get rq \<longrightarrow> tl_answer_ok (http env tr rq)" for key
  proof -
    from tl have tl': "\<And>tr rq. \<not> is_get rq \<Longrightarrow> tl_answer_ok (http env tr rq)"
      by blast
    from sync_articles_enriches [OF sa assms(4) t k tl'] rec
    have l: "list_all2 (\<lambda>a d. if blank_content a then unenriched d else enriched d)
               arts (records ops)"
      by simp
    then have "list_all2 (\<lambda>a d. blank_content a = unenriched d) arts (records ops)"
      by (rule list_all2_mono) (auto dest: enriched_not_unenriched split: if_splits)
    then have n1: "length (filter blank_content arts) = length (filter unenriched (records ops))"
      by (rule filter_length_related)
    from l have "list_all2 (\<lambda>a d. blank_content a = (\<not> enriched d)) arts (records ops)"
      by (rule list_all2_mono) (auto dest: unenriched_not_enriched split: if_splits)
    then have n2: "length (filter blank_content arts)
                     = length (filter (\<lambda>d. \<not> enriched d) (records ops))"
      by (rule filter_length_related)
    from l n1 n2 show ?thesis by simp
  qed
  have d: "list_all2 (emitted_for topic) arts (records ops)"
    using em(2) rec by simp
  have e: "length (warnings w')
             = length (warnings w) + length (filter (\<lambda>d. \<not> enriched d) (records ops))"
    using em(3) w1 rec by simp
  have f: "(\<forall>a \<in> set arts. text_content a) \<and> (\<exists>key. map_of conf ''TABULA_KEY'' = Some key)
            \<and> (\<forall>tr rq. \<not> is_get rq \<longrightarrow> tl_answer_ok (http env tr rq)) \<longrightarrow>
             list_all2 (\<lambda>a d. if blank_content a then unenriched d else enriched d)
               arts (records ops)
             \<and> (length (filter blank_content arts) = 1 \<longrightarrow>
                  length (filter unenriched (records ops)) = 1
                  \<and> length (filter (\<lambda>d. \<not> enriched d) (records ops)) = 1)"
    using c by blast
  from em(1) a b d e f show ?thesis
    by (intro conjI)
qed

theorem enrichment_failures_isolated_witness:
  "http (demo_env eight) (trace w0) (Get BASE_API_URL (api_headers ''nk'') (demo_params ''ai''))
     = Inr \<lparr>status_code = 200, reason = ''OK'', json_body = Inr demo_body\<rparr>
   \<and> py_get demo_body ''articles'' = Inr (JArr demo_articles)
   \<and> list_all text_content demo_articles
   \<and> map_of (demo_conf ''ai'') ''TABULA_KEY'' = Some ''tk''
   \<and> length (filter blank_content demo_articles) = 1
   \<and> (case sync_items (demo_env eight) (api_headers ''nk'') (demo_params ''ai'') demo_state
             ''ai'' (demo_conf ''ai'') w0 of
         (w', ops, r) \<Rightarrow>
           r = None \<and> ops = topic_ops demo_state (records ops) \<and> length (records ops) = 3
           \<and> length (warnings w') = 1
           \<and> length (filter unenriched (records ops)) = 1
           \<and> list_all2 (\<lambda>a d. if blank_content a then unenriched d else enriched d)
                demo_articles (records ops))"
proof -
  let ?env = "demo_env eight"
  let ?rq = "Get BASE_API_URL (api_headers ''nk'') (demo_params ''ai'')"
  let ?resp = "\<lparr>status_code = 200, reason = ''OK'', json_body = Inr demo_body\<rparr>"
  have h1: "http ?env (trace w0) ?rq = Inr ?resp"
    by (simp add: demo_env_def demo_http_def demo_params_def query_params_def answer_ok_def)
  have h2: "json_body ?resp = Inr demo_body"
    by simp
  have h3: "py_get demo_body ''articles'' = Inr (JArr demo_articles)"
    by (simp add: py_get_def demo_body_def dict_get_def)
  have h4: "\<forall>a \<in> set demo_articles. \<exists>d. article_data ''ai'' a = Inr d"
    by (simp add: demo_articles_def demo_article_def article_data_def and_then_def
        py_getitem_def dict_getitem_def)
  have t: "\<forall>a \<in> set demo_articles. text_content a"
    by (simp add: demo_articles_def demo_article_def text_content_def
        py_getitem_def dict_getitem_def)
  have k: "map_of (demo_conf ''ai'') ''TABULA_KEY'' = Some ''tk''"
    by (simp add: demo_conf_def)
  have tl: "\<forall>tr rq. \<not> is_get rq \<longrightarrow> tl_answer_ok (http ?env tr rq)"
    by (auto simp add: is_get_def demo_env_def demo_http_def answer_ok_def tl_answer_ok_def
        raise_for_status_def demo_document_def and_then_def py_getitem_def dict_getitem_def
        document_ok_def eight_def split: request.splits)
  have one: "length (filter blank_content demo_articles) = 1"
    by (simp add: demo_articles_def demo_article_def blank_content_def
        py_getitem_def dict_getitem_def py_strip_def isspace_def)
  obtain w' ops r where run:
    "sync_items ?env (api_headers ''nk'') (demo_params ''ai'') demo_state ''ai''
       (demo_conf ''ai'') w0 = (w', ops, r)"
    by (cases "sync_items ?env (api_headers ''nk'') (demo_params ''ai'') demo_state ''ai''
       (demo_conf ''ai'') w0") auto
  note inst = enrichment_failures_isolated [OF h1 h2 h3 h4 run]
  from t k tl have pre: "(\<forall>a \<in> set demo_articles. text_content a)
      \<and> (\<exists>key. map_of (demo_conf ''ai'') ''TABULA_KEY'' = Some key)
      \<and> (\<forall>tr rq. \<not> is_get rq \<longrightarrow> tl_answer_ok (http ?env tr rq))"
    by blast
  from inst pre have l: "list_all2 (\<lambda>a d. if blank_content a then unenriched d else enriched d)
                demo_articles (records ops)"
    by blast
  from inst pre one have n: "length (filter unenriched (records ops)) = 1"
    "length (filter (\<lambda>d. \<not> enriched d) (records ops)) = 1"
    by blast+
  from inst have "length (warnings w')
           = length (warnings w0) + length (filter (\<lambda>d. \<not> enriched d) (records ops))"
    by blast
  with n have wn: "length (warnings w') = 1"
    by (simp add: w0_def)
  from inst have "length (records ops) = length demo_articles" by blast
  then have len: "length (records ops) = 3"
    by (simp add: demo_articles_def)
  from inst have "r = None" "ops = topic_ops demo_state (records ops)"
    by blast+
  with len wn n l have "case (w', ops, r) of
         (w', ops, r) \<Rightarrow>
           r = None \<and> ops = topic_ops demo_state (records ops) \<and> length (records ops) = 3
           \<and> length (warnings w') = 1
           \<and> length (filter unenriched (records ops)) = 1
           \<and> list_all2 (\<lambda>a d. if blank_content a then unenriched d else enriched d)
                demo_articles (records ops)"
    unfolding prod.case by (intro conjI)
  moreover from t have "list_all text_content demo_articles"
    by (simp add: list_all_iff)
  ultimately show ?thesis
    using h1 h3 k one unfolding run by (intro conjI)
qed


section \<open>The topics of a run\<close>

lemma sync_topics_ops:
  "sync_topics env conf headers params state topics w = (w', ops, r) \<Longrightarrow>
     \<exists>gs rest. ops = concat (map (topic_ops state) gs) @ map (Upsert ''article'') rest
       \<and> length gs \<le> length topics
       \<and> (r = None \<longrightarrow> length gs = length topics \<and> rest = [])
       \<and> (\<forall>d \<in> set (concat gs) \<union> set rest. set BASE_KEYS \<subseteq> keys d)"
proof (induction topics arbitrary: params w w' ops r)
  case Nil
  then have "ops = concat (map (topic_ops state) []) @ map (Upsert ''article'') []" "r = None"
    by simp_all
  then show ?case by (intro exI [of _ "[]"]) simp
next
  case (Cons t ts)
  let ?p = "AList.update ''q'' (JStr t) params"
  obtain w1 ops1 r1 where si: "sync_items env headers ?p state t conf w = (w1, ops1, r1)"
    by (cases "sync_items env headers ?p state t conf w") auto
  from sync_items_shape [OF si]
  have sh: "ops1 = map (Upsert ''article'') (records ops1)
                    @ (if r1 = None then [Checkpoint state] else [])"
    "\<forall>d \<in> set (records ops1). set BASE_KEYS \<subseteq> keys d"
    by blast+
  show ?case
  proof (cases r1)
    case (Some e)
    with Cons.prems si have "ops = ops1" "r = Some e"
      by (simp_all add: Let_def)
    with sh Some have "ops = concat (map (topic_ops state) [])
                               @ map (Upsert ''article'') (records ops1)"
      by simp
    with sh(2) \<open>r = Some e\<close> show ?thesis
      by (intro exI [of _ "[]"] exI [of _ "records ops1"]) simp
  next
    case None
    obtain w2 ops2 r2 where st: "sync_topics env conf headers ?p state ts w1 = (w2, ops2, r2)"
      by (cases "sync_topics env conf headers ?p state ts w1") auto
    with Cons.prems si None have res: "ops = ops1 @ ops2" "r = r2"
      by (simp_all add: Let_def)
    from Cons.IH [OF st] obtain gs rest where
      ih: "ops2 = concat (map (topic_ops state) gs) @ map (Upsert ''article'') rest"
      "length gs \<le> length ts" "r2 = None \<longrightarrow> length gs = length ts \<and> rest = []"
      "\<forall>d \<in> set (concat gs) \<union> set rest. set BASE_KEYS \<subseteq> keys d"
      by blast
    from sh(1) None have "ops1 = topic_ops state (records ops1)"
      by (simp add: topic_ops_def)
    with res ih(1) have "ops = concat (map (topic_ops state) (records ops1 # gs))
                                @ map (Upsert ''article'') rest"
      by simp
    with ih(2-4) sh(2) res(2) show ?thesis
      by (intro exI [of _ "records ops1 # gs"] exI [of _ rest]) auto
  qed
qed

lemma sync_topics_requests:
  "sync_topics env conf headers params state topics w = (w', ops, r) \<Longrightarrow>
     \<exists>n. n \<le> length topics \<and> (r = None \<longrightarrow> n = length topics)
       \<and> source_requests w' = source_requests w
            @ map (\<lambda>t. Get BASE_API_URL headers (AList.update ''q'' (JStr t) params))
                (take n topics)"
proof (induction topics arbitrary: params w w' ops r)
  case Nil
  then show ?case by simp
next
  case (Cons t ts)
  let ?p = "AList.update ''q'' (JStr t) params"
  obtain w1 ops1 r1 where si: "sync_items env headers ?p state t conf w = (w1, ops1, r1)"
    by (cases "sync_items env headers ?p state t conf w") auto
  from sync_items_shape [OF si]
  have rq: "source_requests w1 = source_requests w @ [Get BASE_API_URL headers ?p]"
    by blast
  show ?case
  proof (cases r1)
    case (Some e)
    with Cons.prems si have "w' = w1" "r = Some e"
      by (simp_all add: Let_def)
    with rq show ?thesis
      by (intro exI [of _ 1]) simp
  next
    case None
    obtain w2 ops2 r2 where st: "sync_topics env conf headers ?p state ts w1 = (w2, ops2, r2)"
      by (cases "sync_topics env conf headers ?p state ts w1") auto
    with Cons.prems si None have res: "w' = w2" "r = r2"
      by (simp_all add: Let_def)
    from Cons.IH [OF st] obtain n where
      ih: "n \<le> length ts" "r2 = None \<longrightarrow> n = length ts"
      "source_requests w2 = source_requests w1
         @ map (\<lambda>t'. Get BASE_API_URL headers (AList.update ''q'' (JStr t') ?p)) (take n ts)"
      by blast
    from ih(3) rq res(1) have "source_requests w' = source_requests w
         @ map (\<lambda>t'. Get BASE_API_URL headers (AList.update ''q'' (JStr t') params))
             (take (Suc n) (t # ts))"
      by simp
    with ih(1,2) res(2) show ?thesis
      by (intro exI [of _ "Suc n"]) simp
  qed
qed

lemma sync_topics_failure:
  "sync_topics env conf headers params state topics w = (w', ops, r) \<Longrightarrow>
     ev \<in> set (trace w') \<Longrightarrow> source_failure ev = Some e \<Longrightarrow>
     ev \<in> set (trace w)
     \<or> (r = Some e
         \<and> (\<exists>gs. ops = concat (map (topic_ops state) gs) \<and> length gs < length topics))"
proof (induction topics arbitrary: params w w' ops r)
  case Nil
  then show ?case by simp
next
  case (Cons t ts)
  let ?p = "AList.update ''q'' (JStr t) params"
  obtain w1 ops1 r1 where si: "sync_items env headers ?p state t conf w = (w1, ops1, r1)"
    by (cases "sync_items env headers ?p state t conf w") auto
  from sync_items_shape [OF si]
  have sh: "ops1 = map (Upsert ''article'') (records ops1)
                    @ (if r1 = None then [Checkpoint state] else [])"
    "\<And>ev e. ev \<in> set (trace w1) \<Longrightarrow> source_failure ev = Some e \<Longrightarrow>
        ev \<in> set (trace w) \<or> (r1 = Some e \<and> ops1 = [])"
    by blast+
  show ?case
  proof (cases r1)
    case (Some e1)
    with Cons.prems(1) si have res: "w' = w1" "ops = ops1" "r = r1"
      by (simp_all add: Let_def)
    from sh(2) [of ev e] Cons.prems(2,3) res
    have "ev \<in> set (trace w) \<or> (r = Some e \<and> ops = [])"
      by simp
    then show ?thesis
    proof
      assume "r = Some e \<and> ops = []"
      then have "r = Some e \<and> ops = concat (map (topic_ops state) [])
                   \<and> length ([] :: dict list list) < length (t # ts)"
        by simp
      then show ?thesis by blast
    qed simp
  next
    case None
    obtain w2 ops2 r2 where st: "sync_topics env conf headers ?p state ts w1 = (w2, ops2, r2)"
      by (cases "sync_topics env conf headers ?p state ts w1") auto
    with Cons.prems(1) si None have res: "w' = w2" "ops = ops1 @ ops2" "r = r2"
      by (simp_all add: Let_def)
    from sh(1) None have o1: "ops1 = topic_ops state (records ops1)"
      by (simp add: topic_ops_def)
    from Cons.IH [OF st] Cons.prems(2,3) res(1)
    have "ev \<in> set (trace w1)
          \<or> (r2 = Some e
              \<and> (\<exists>gs. ops2 = concat (map (topic_ops state) gs) \<and> length gs < length ts))"
      by simp
    then show ?thesis
    proof
      assume "ev \<in> set (trace w1)"
      from sh(2) [OF this Cons.prems(3)] None show ?thesis by simp
    next
      assume "r2 = Some e
              \<and> (\<exists>gs. ops2 = concat (map (topic_ops state) gs) \<and> length gs < length ts)"
      then obtain gs where g: "r2 = Some e" "ops2 = concat (map (topic_ops state) gs)"
        "length gs < length ts"
        by blast
      with res o1 have "r = Some e"
        "ops = concat (map (topic_ops state) (records ops1 # gs))"
        "length (records ops1 # gs) < length (t # ts)"
        by simp_all
      then show ?thesis by blast
    qed
  qed
qed


section \<open>The run\<close>

lemma params_to: "dict_getitem (query_params qs qe ps) ''to'' = Inr (JStr qe)"
  by (simp add: query_params_def dict_getitem_def)

lemma params_q:
  "AList.update ''q'' v (query_params qs qe ps) =
     [(''from'', qs), (''to'', JStr qe), (''page'', JStr ''1''), (''language'', JStr ''en''),
      (''sortBy'', JStr ''publishedAt''), (''pageSize'', JStr ps), (''q'', v)]"
  by (simp add: query_params_def)

lemma update_started:
  assumes "get_last_published_at env conf = Inr lp"
    and "query_window (dict_get state ''to_ts'') lp (env_now env) = Inr (qs, qe)"
    and "map_of conf ''PAGE_SIZE'' = Some ps"
    and "map_of conf ''NEWS_API_KEY'' = Some key"
    and "map_of conf ''TOPIC'' = Some tc"
    and "sync_topics env conf (api_headers key) (query_params qs qe ps) state
           (split_comma tc) w0 = (w, ops, r)"
  shows "update env conf state = (case r of
             Some e \<Rightarrow> raised w ops (wrap_error env e)
           | None \<Rightarrow> \<lparr>run_ops = ops @ [Checkpoint [(''to_ts'', JStr qe)]],
                      run_outcome = None, run_world = w\<rparr>)"
  using assms
  by (simp add: update_def Let_def dict_getitem_def [of conf] params_to w0_def
      split: option.splits)

lemma update_cases:
  obtains (early) e where "update env conf state = raised w0 [] e"
  | (started) lp qs ps key tc w ops r where
      "get_last_published_at env conf = Inr lp"
      "query_window (dict_get state ''to_ts'') lp (env_now env)
         = Inr (qs, strftime (env_now env))"
      "map_of conf ''PAGE_SIZE'' = Some ps"
      "map_of conf ''NEWS_API_KEY'' = Some key"
      "map_of conf ''TOPIC'' = Some tc"
      "sync_topics env conf (api_headers key) (query_params qs (strftime (env_now env)) ps)
         state (split_comma tc) w0 = (w, ops, r)"
      "update env conf state = (case r of
             Some e \<Rightarrow> raised w ops (wrap_error env e)
           | None \<Rightarrow> \<lparr>run_ops = ops @ [Checkpoint [(''to_ts'', JStr (strftime (env_now env)))]],
                      run_outcome = None, run_world = w\<rparr>)"
proof (cases "get_last_published_at env conf")
  case (Inl e)
  then have "update env conf state = raised w0 [] e"
    by (simp add: update_def w0_def)
  then show thesis by (rule early)
next
  case lp: (Inr lp)
  show thesis
  proof (cases "query_window (dict_get state ''to_ts'') lp (env_now env)")
    case (Inl e)
    with lp have "update env conf state = raised w0 [] e"
      by (simp add: update_def w0_def)
    then show thesis by (rule early)
  next
    case (Inr win)
    obtain qs qe where win: "win = (qs, qe)" by (cases win)
    with Inr query_window_end have qe: "qe = strftime (env_now env)" by blast
    note qw = Inr [unfolded win qe]
    show thesis
    proof (cases "map_of conf ''PAGE_SIZE''")
      case None
      with lp qw have
        "update env conf state = raised w0 [] (Exn ''KeyError'' (py_repr ''PAGE_SIZE''))"
        by (simp add: update_def w0_def dict_getitem_def)
      then show thesis by (rule early)
    next
      case ps: (Some ps)
      show thesis
      proof (cases "map_of conf ''NEWS_API_KEY''")
        case None
        with lp qw ps have
          "update env conf state = raised w0 [] (Exn ''KeyError'' (py_repr ''NEWS_API_KEY''))"
          by (simp add: update_def w0_def dict_getitem_def)
        then show thesis by (rule early)
      next
        case key: (Some key)
        show thesis
        proof (cases "map_of conf ''TOPIC''")
          case None
          with lp qw ps key have "update env conf state
              = raised w0 [] (wrap_error env (Exn ''KeyError'' (py_repr ''TOPIC'')))"
            by (simp add: update_def w0_def dict_getitem_def)
          then show thesis by (rule early)
        next
          case tc: (Some tc)
          obtain w ops r where st:
            "sync_topics env conf (api_headers key)
               (query_params qs (strftime (env_now env)) ps) state (split_comma tc) w0
             = (w, ops, r)"
            by (cases "sync_topics env conf (api_headers key)
               (query_params qs (strftime (env_now env)) ps) state (split_comma tc) w0") auto
          from update_started [OF lp qw ps key tc st] lp qw ps key tc st
          show thesis by (rule started [rotated -1])
        qed
      qed
    qed
  qed
qed


text \<open>
  Claim C6. A run that ends without an exception (every topic succeeded) emits as its
  last operation a checkpoint whose state is exactly \<open>{to_ts: query_end}\<close>, the time of
  the run: no key of the input state is carried over.
\<close>

theorem final_checkpoint:
  assumes "run_outcome (update env conf state) = None"
  shows "run_ops (update env conf state) \<noteq> []
         \<and> last (run_ops (update env conf state))
             = Checkpoint [(''to_ts'', JStr (strftime (env_now env)))]"
proof (cases rule: update_cases [of env conf state])
  case (early e)
  with assms show ?thesis by (simp add: raised_def)
next
  case (started lp qs ps key tc w ops r)
  with assms show ?thesis
    by (cases r) (simp_all add: raised_def)
qed

theorem final_checkpoint_witness:
  "run_outcome (update (demo_env eight) (demo_conf ''ai,tech'') demo_state) = None
   \<and> map_of demo_state ''cursor'' = Some (JInt 7)
   \<and> last (run_ops (update (demo_env eight) (demo_conf ''ai,tech'') demo_state))
       = Checkpoint [(''to_ts'', JStr ''2024-01-10T12:00:00'')]"
proof -
  have h: "run_outcome (update (demo_env eight) (demo_conf ''ai,tech'') demo_state) = None"
    by code_simp
  have t: "strftime (env_now (demo_env eight)) = ''2024-01-10T12:00:00''"
    by code_simp
  have c: "map_of demo_state ''cursor'' = Some (JInt 7)"
    by (simp add: demo_state_def)
  from final_checkpoint [OF h] h c show ?thesis
    by (simp add: t)
qed

text \<open>
  Claim C7. The operations of a run are, topic by topic, the upserts of the topic
  followed by a checkpoint that carries the input state as it was passed; then come the
  upserts of a topic that did not complete, if any, and the final checkpoint when the
  run succeeded. In a run that succeeded every configured topic has its group.
\<close>

theorem intermediate_checkpoints:
  "\<exists>gs rest. run_ops (update env conf state)
       = concat (map (\<lambda>g. map (Upsert ''article'') g @ [Checkpoint state]) gs)
         @ map (Upsert ''article'') rest
         @ (if run_outcome (update env conf state) = None
            then [Checkpoint [(''to_ts'', JStr (strftime (env_now env)))]] else [])
     \<and> (run_outcome (update env conf state) = None \<longrightarrow>
          rest = []
          \<and> (\<exists>tc. map_of conf ''TOPIC'' = Some tc \<and> length gs = length (split_comma tc)))"
proof (cases rule: update_cases [of env conf state])
  case (early e)
  then show ?thesis
    by (intro exI [of _ "[]"]) (simp add: raised_def)
next
  case (started lp qs ps key tc w ops r)
  from sync_topics_ops [OF started(6)] obtain gs rest where
    g: "ops = concat (map (topic_ops state) gs) @ map (Upsert ''article'') rest"
    "r = None \<longrightarrow> length gs = length (split_comma tc) \<and> rest = []"
    by blast
  have t: "topic_ops state = (\<lambda>g. map (Upsert ''article'') g @ [Checkpoint state])"
    by (rule ext) (simp add: topic_ops_def)
  show ?thesis
  proof (cases r)
    case None
    with started(5,7) g t show ?thesis
      by (intro exI [of _ gs] exI [of _ rest]) simp
  next
    case (Some e)
    with started(7) g t show ?thesis
      by (intro exI [of _ gs] exI [of _ rest]) (simp add: raised_def)
  qed
qed

theorem intermediate_checkpoints_witness:
  "run_outcome (update (demo_env eight) (demo_conf ''ai,tech'') demo_state) = None
   \<and> (\<exists>gs. run_ops (update (demo_env eight) (demo_conf ''ai,tech'') demo_state)
         = concat (map (\<lambda>g. map (Upsert ''article'') g @ [Checkpoint demo_state]) gs)
           @ [Checkpoint [(''to_ts'', JStr ''2024-01-10T12:00:00'')]]
       \<and> length gs = 2)"
proof -
  let ?r = "update (demo_env eight) (demo_conf ''ai,tech'') demo_state"
  have h: "run_outcome ?r = None"
    by code_simp
  have t: "strftime (env_now (demo_env eight)) = ''2024-01-10T12:00:00''"
    by code_simp
  have tc: "map_of (demo_conf ''ai,tech'') ''TOPIC'' = Some ''ai,tech''"
    by (simp add: demo_conf_def)
  have n: "length (split_comma ''ai,tech'') = 2"
    by simp
  from intermediate_checkpoints [of "demo_env eight" "demo_conf ''ai,tech''" demo_state]
  obtain gs rest where
    "run_ops ?r = concat (map (\<lambda>g. map (Upsert ''article'') g @ [Checkpoint demo_state]) gs)
         @ map (Upsert ''article'') rest
         @ (if run_outcome ?r = None
            then [Checkpoint [(''to_ts'', JStr (strftime (env_now (demo_env eight))))]] else [])"
    "run_outcome ?r = None \<longrightarrow>
          rest = []
          \<and> (\<exists>tc. map_of (demo_conf ''ai,tech'') ''TOPIC'' = Some tc
                \<and> length gs = length (split_comma tc))"
    by (elim exE conjE)
  with h tc n have
    "run_ops ?r = concat (map (\<lambda>g. map (Upsert ''article'') g @ [Checkpoint demo_state]) gs)
         @ [Checkpoint [(''to_ts'', JStr ''2024-01-10T12:00:00'')]] \<and> length gs = 2"
    by (auto simp add: t)
  with h show ?thesis by blast
qed


text \<open>
  Claim C8. In a run that gets as far as the topics, the requests made to the source
  API are one for each topic reached, in the order of the configured list, and one for
  every topic when the run succeeds. Each asks for page 1, with \<open>from\<close> the start of the
  window, \<open>to\<close> its end, \<open>language\<close> \<open>en\<close>, \<open>sortBy\<close> \<open>publishedAt\<close>, \<open>pageSize\<close> from
  the configuration and \<open>q\<close> the topic.
\<close>

theorem one_request_per_topic:
  assumes "get_last_published_at env conf = Inr lp"
    and "query_window (dict_get state ''to_ts'') lp (env_now env) = Inr (query_start, query_end)"
    and "map_of conf ''PAGE_SIZE'' = Some page_size"
    and "map_of conf ''NEWS_API_KEY'' = Some key"
    and "map_of conf ''TOPIC'' = Some topic_conf"
  shows "\<exists>n. n \<le> length (split_comma topic_conf)
           \<and> (run_outcome (update env conf state) = None \<longrightarrow>
                n = length (split_comma topic_conf))
           \<and> source_requests (run_world (update env conf state))
               = map (\<lambda>topic. Get BASE_API_URL
                        [(''Authorization'', JStr (''Bearer '' @ key)),
                         (''Accept'', JStr ''application/json'')]
                        [(''from'', query_start), (''to'', JStr query_end),
                         (''page'', JStr ''1''), (''language'', JStr ''en''),
                         (''sortBy'', JStr ''publishedAt''), (''pageSize'', JStr page_size),
                         (''q'', JStr topic)])
                   (take n (split_comma topic_conf))"
proof -
  obtain w ops r where st:
    "sync_topics env conf (api_headers key) (query_params query_start query_end page_size)
       state (split_comma topic_conf) w0 = (w, ops, r)"
    by (cases "sync_topics env conf (api_headers key)
       (query_params query_start query_end page_size) state (split_comma topic_conf) w0") auto
  from update_started [OF assms st]
  have u: "run_world (update env conf state) = w"
    "run_outcome (update env conf state) = None \<longleftrightarrow> r = None"
    by (simp_all add: raised_def split: option.splits)
  from sync_topics_requests [OF st] obtain n where
    n: "n \<le> length (split_comma topic_conf)" "r = None \<longrightarrow> n = length (split_comma topic_conf)"
    "source_requests w = source_requests w0
       @ map (\<lambda>t. Get BASE_API_URL (api_headers key)
                (AList.update ''q'' (JStr t) (query_params query_start query_end page_size)))
           (take n (split_comma topic_conf))"
    by blast
  have "source_requests w0 = []"
    by (simp add: source_requests_def w0_def)
  with n(3) u(1) have rq: "source_requests (run_world (update env conf state))
               = map (\<lambda>topic. Get BASE_API_URL
                        [(''Authorization'', JStr (''Bearer '' @ key)),
                         (''Accept'', JStr ''application/json'')]
                        [(''from'', query_start), (''to'', JStr query_end),
                         (''page'', JStr ''1''), (''language'', JStr ''en''),
                         (''sortBy'', JStr ''publishedAt''), (''pageSize'', JStr page_size),
                         (''q'', JStr topic)])
                   (take n (split_comma topic_conf))"
    by (simp add: params_q api_headers_def)
  from n(2) u(2) have "run_outcome (update env conf state) = None \<longrightarrow>
                n = length (split_comma topic_conf)"
    by simp
  with n(1) rq show ?thesis
    by (intro exI [of _ n] conjI)
qed

theorem one_request_per_topic_witness:
  "get_last_published_at (demo_env eight) (demo_conf ''ai,tech'') = Inr None
   \<and> query_window (dict_get demo_state ''to_ts'') None (env_now (demo_env eight))
       = Inr (JStr ''2024-01-08T12:00:00'', ''2024-01-10T12:00:00'')
   \<and> run_outcome (update (demo_env eight) (demo_conf ''ai,tech'') demo_state) = None
   \<and> source_requests (run_world (update (demo_env eight) (demo_conf ''ai,tech'') demo_state))
       = [Get BASE_API_URL (api_headers ''nk'') (demo_params ''ai''),
          Get BASE_API_URL (api_headers ''nk'') (demo_params ''tech'')]"
proof -
  let ?env = "demo_env eight" and ?conf = "demo_conf ''ai,tech''"
  have h1: "get_last_published_at ?env ?conf = Inr None"
    by code_simp
  have h2: "query_window (dict_get demo_state ''to_ts'') None (env_now ?env)
       = Inr (JStr ''2024-01-08T12:00:00'', ''2024-01-10T12:00:00'')"
    by code_simp
  have h3: "map_of ?conf ''PAGE_SIZE'' = Some ''20''"
    by (simp add: demo_conf_def)
  have h4: "map_of ?conf ''NEWS_API_KEY'' = Some ''nk''"
    by (simp add: demo_conf_def)
  have h5: "map_of ?conf ''TOPIC'' = Some ''ai,tech''"
    by (simp add: demo_conf_def)
  have ok: "run_outcome (update ?env ?conf demo_state) = None"
    by code_simp
  have sc: "split_comma ''ai,tech'' = [''ai'', ''tech'']"
    by simp
  from one_request_per_topic [OF h1 h2 h3 h4 h5] obtain n where
    n: "run_outcome (update ?env ?conf demo_state) = None \<longrightarrow>
          n = length (split_comma ''ai,tech'')"
    and rq: "source_requests (run_world (update ?env ?conf demo_state))
               = map (\<lambda>topic. Get BASE_API_URL
                        [(''Authorization'', JStr (''Bearer '' @ ''nk'')),
                         (''Accept'', JStr ''application/json'')]
                        [(''from'', JStr ''2024-01-08T12:00:00''),
                         (''to'', JStr ''2024-01-10T12:00:00''),
                         (''page'', JStr ''1''), (''language'', JStr ''en''),
                         (''sortBy'', JStr ''publishedAt''), (''pageSize'', JStr ''20''),
                         (''q'', JStr topic)])
                   (take n (split_comma ''ai,tech''))"
    by (elim exE conjE)
  from n ok have "take n (split_comma ''ai,tech'') = [''ai'', ''tech'']"
    by (simp add: sc)
  with rq have "source_requests (run_world (update ?env ?conf demo_state))
       = [Get BASE_API_URL (api_headers ''nk'') (demo_params ''ai''),
          Get BASE_API_URL (api_headers ''nk'') (demo_params ''tech'')]"
    by (simp add: api_headers_def demo_params_def query_params_def)
  with h1 h2 ok show ?thesis by (intro conjI)
qed

lemma upsert_in_groups:
  "Upsert t d \<in> set (concat (map (topic_ops state) gs)) \<Longrightarrow>
     t = ''article'' \<and> d \<in> set (concat gs)"
  by (induction gs) (auto simp add: topic_ops_def)

lemma base_keys_set:
  "set BASE_KEYS = {''topic'', ''source'', ''published_at'', ''author'', ''title'',
     ''description'', ''content'', ''url''}"
  by (simp add: BASE_KEYS_def)

text \<open>
  Claim C10. Every upsert of a run goes to the table \<open>article\<close>, and its record has the
  seven base content fields and the key \<open>topic\<close>. The schema declares the one table
  \<open>article\<close> with primary key \<open>(source, published_at)\<close> and the seventeen columns
  \<open>source\<close> to \<open>p7\<close>; \<open>topic\<close> is not one of them.
\<close>

theorem upsert_shape:
  "(\<forall>x \<in> set (run_ops (update env conf state)). \<forall>t d. x = Upsert t d \<longrightarrow>
       t = ''article''
       \<and> {''topic'', ''source'', ''published_at'', ''author'', ''title'', ''description'',
           ''content'', ''url''} \<subseteq> keys d)
   \<and> map table (schema conf) = [''article'']
   \<and> map primary_key (schema conf) = [[''source'', ''published_at'']]
   \<and> map (\<lambda>t. map fst (columns t)) (schema conf)
       = [[''source'', ''published_at'', ''author'', ''title'', ''description'', ''content'',
           ''url'', ''blue'', ''red'', ''p0'', ''p1'', ''p2'', ''p3'', ''p4'', ''p5'', ''p6'',
           ''p7'']]
   \<and> (\<forall>t \<in> set (schema conf). ''topic'' \<notin> fst ` set (columns t))"
proof -
  have r: "t = ''article'' \<and> set BASE_KEYS \<subseteq> keys d"
    if "Upsert t d \<in> set (run_ops (update env conf state))" for t d
  proof (cases rule: update_cases [of env conf state])
    case (early e)
    with that show ?thesis by (simp add: raised_def)
  next
    case (started lp qs ps key tc w ops r)
    from sync_topics_ops [OF started(6)] obtain gs rest where
      g: "ops = concat (map (topic_ops state) gs) @ map (Upsert ''article'') rest"
      "\<forall>d \<in> set (concat gs) \<union> set rest. set BASE_KEYS \<subseteq> keys d"
      by blast
    from that started(7) have "Upsert t d \<in> set ops"
      by (cases r) (auto simp add: raised_def)
    with g(1) have "Upsert t d \<in> set (concat (map (topic_ops state) gs))
                    \<or> Upsert t d \<in> set (map (Upsert ''article'') rest)"
      by simp
    then have "t = ''article'' \<and> d \<in> set (concat gs) \<union> set rest"
    proof
      assume "Upsert t d \<in> set (concat (map (topic_ops state) gs))"
      from upsert_in_groups [OF this] show ?thesis by blast
    next
      assume "Upsert t d \<in> set (map (Upsert ''article'') rest)"
      then show ?thesis by auto
    qed
    with g(2) show ?thesis by blast
  qed
  have "\<forall>x \<in> set (run_ops (update env conf state)). \<forall>t d. x = Upsert t d \<longrightarrow>
       t = ''article'' \<and> set BASE_KEYS \<subseteq> keys d"
  proof (intro ballI allI impI)
    fix x t d
    assume "x \<in> set (run_ops (update env conf state))" "x = Upsert t d"
    then have "Upsert t d \<in> set (run_ops (update env conf state))" by simp
    then show "t = ''article'' \<and> set BASE_KEYS \<subseteq> keys d" by (rule r)
  qed
  then have a: "\<forall>x \<in> set (run_ops (update env conf state)). \<forall>t d. x = Upsert t d \<longrightarrow>
       t = ''article''
       \<and> {''topic'', ''source'', ''published_at'', ''author'', ''title'', ''description'',
           ''content'', ''url''} \<subseteq> keys d"
    by (simp only: base_keys_set)
  have b: "map table (schema conf) = [''article'']"
    by (simp add: schema_def)
  have c: "map primary_key (schema conf) = [[''source'', ''published_at'']]"
    by (simp add: schema_def)
  have d: "map (\<lambda>t. map fst (columns t)) (schema conf)
       = [[''source'', ''published_at'', ''author'', ''title'', ''description'', ''content'',
           ''url'', ''blue'', ''red'', ''p0'', ''p1'', ''p2'', ''p3'', ''p4'', ''p5'', ''p6'',
           ''p7'']]"
    by (simp add: schema_def)
  have e: "\<forall>t \<in> set (schema conf). ''topic'' \<notin> fst ` set (columns t)"
    by (simp add: schema_def)
  from a b c d e show ?thesis by (intro conjI)
qed

theorem upsert_shape_witness:
  "Upsert ''article'' full_record
     \<in> set (run_ops (update (demo_env eight) (demo_conf ''ai'') demo_state))
   \<and> {''topic'', ''source'', ''published_at'', ''author'', ''title'', ''description'',
       ''content'', ''url''} \<subseteq> keys full_record
   \<and> ''topic'' \<notin> fst ` set (columns (hd (schema (demo_conf ''ai''))))"
proof -
  let ?r = "update (demo_env eight) (demo_conf ''ai'') demo_state"
  have "hd (run_ops ?r) = Upsert ''article'' full_record" 
    by code_simp
  moreover have "run_ops ?r \<noteq> []"
    by code_simp
  ultimately have m: "Upsert ''article'' full_record \<in> set (run_ops ?r)"
    using hd_in_set [of "run_ops ?r"] by simp
  note inst = upsert_shape [of "demo_env eight" "demo_conf ''ai''" demo_state]
  from inst have "\<forall>x \<in> set (run_ops ?r). \<forall>t d. x = Upsert t d \<longrightarrow>
       t = ''article''
       \<and> {''topic'', ''source'', ''published_at'', ''author'', ''title'', ''description'',
           ''content'', ''url''} \<subseteq> keys d"
    by (rule conjunct1)
  with m have k: "{''topic'', ''source'', ''published_at'', ''author'', ''title'',
       ''description'', ''content'', ''url''} \<subseteq> keys full_record"
    by blast
  from inst have "\<forall>t \<in> set (schema (demo_conf ''ai'')). ''topic'' \<notin> fst ` set (columns t)"
    by (elim conjE)
  moreover have "hd (schema (demo_conf ''ai'')) \<in> set (schema (demo_conf ''ai''))"
    by (simp add: schema_def)
  ultimately have "''topic'' \<notin> fst ` set (columns (hd (schema (demo_conf ''ai''))))"
    by (rule bspec)
  with m k show ?thesis by (intro conjI)
qed


section \<open>Failures\<close>

text \<open>
  Claim C4, as the code has it. When a request to the source API raises, or the body of
  its answer is not JSON, the run ends with one \<open>RuntimeError\<close> that carries the
  message and the stack trace of that exception. The operations emitted are those of
  the topics completed before, each group closed by its checkpoint of the input state:
  the final checkpoint is not among them.
\<close>

theorem source_failure_aborts:
  assumes "ev \<in> set (trace (run_world (update env conf state)))"
    and "source_failure ev = Some e"
  shows "run_outcome (update env conf state)
           = Some (Exn ''RuntimeError''
               (''Error Message: '' @ exn_str e @ nl @ ''Stack Trace:'' @ nl @ format_exc env e))
         \<and> (\<exists>gs tc. map_of conf ''TOPIC'' = Some tc \<and> length gs < length (split_comma tc)
               \<and> run_ops (update env conf state)
                   = concat (map (\<lambda>g. map (Upsert ''article'') g @ [Checkpoint state]) gs))"
proof (cases rule: update_cases [of env conf state])
  case (early e')
  with assms(1) show ?thesis by (simp add: raised_def w0_def)
next
  case (started lp qs ps key tc w ops r)
  have t: "topic_ops state = (\<lambda>g. map (Upsert ''article'') g @ [Checkpoint state])"
    by (rule ext) (simp add: topic_ops_def)
  from started(7) have "run_world (update env conf state) = w"
    by (cases r) (simp_all add: raised_def)
  with assms(1) have "ev \<in> set (trace w)" by simp
  from sync_topics_failure [OF started(6) this assms(2)]
  obtain gs where g: "r = Some e" "ops = concat (map (topic_ops state) gs)"
    "length gs < length (split_comma tc)"
    by (auto simp add: w0_def)
  from started(7) g(1) have u: "update env conf state = raised w ops (wrap_error env e)"
    by simp
  from u have "run_outcome (update env conf state)
           = Some (Exn ''RuntimeError''
               (''Error Message: '' @ exn_str e @ nl @ ''Stack Trace:'' @ nl @ format_exc env e))"
    by (simp add: raised_def wrap_error_def)
  moreover from u g(2) t have "run_ops (update env conf state)
                   = concat (map (\<lambda>g. map (Upsert ''article'') g @ [Checkpoint state]) gs)"
    by (simp add: raised_def)
  ultimately show ?thesis
    using started(5) g(3) by (intro conjI exI [of _ gs] exI [of _ tc])
qed

theorem source_failure_aborts_witness:
  "(Get BASE_API_URL (api_headers ''nk'') (demo_params ''down''), Inl connection_error)
     \<in> set (trace (run_world (update (demo_env eight) (demo_conf ''tech,down'') demo_state)))
   \<and> source_failure
         (Get BASE_API_URL (api_headers ''nk'') (demo_params ''down''), Inl connection_error)
       = Some connection_error
   \<and> run_outcome (update (demo_env eight) (demo_conf ''tech,down'') demo_state)
       = Some (Exn ''RuntimeError''
           (''Error Message: '' @ exn_str connection_error @ nl @ ''Stack Trace:'' @ nl
            @ format_exc (demo_env eight) connection_error))"
proof -
  let ?ev = "(Get BASE_API_URL (api_headers ''nk'') (demo_params ''down''),
              Inl connection_error) :: event"
  have m: "?ev \<in> set (trace (run_world (update (demo_env eight) (demo_conf ''tech,down'')
                                   demo_state)))"
    by code_simp
  have f: "source_failure ?ev = Some connection_error"
    by (simp add: source_failure_def)
  from source_failure_aborts [OF m f]
  have "run_outcome (update (demo_env eight) (demo_conf ''tech,down'') demo_state)
       = Some (Exn ''RuntimeError''
           (''Error Message: '' @ exn_str connection_error @ nl @ ''Stack Trace:'' @ nl
            @ format_exc (demo_env eight) connection_error))"
    by (rule conjunct1)
  with m f show ?thesis by (intro conjI)
qed

text \<open>
  The claim as the specification states it fails: with the topics \<open>tech,down\<close> the first
  topic completes and its checkpoint is emitted, then the request for the second topic
  raises and the run ends with the wrapped error.
\<close>

theorem checkpoint_before_failure_counterexample:
  "source_failure (last (trace (run_world
       (update (demo_env eight) (demo_conf ''tech,down'') demo_state))))
     = Some connection_error
   \<and> run_outcome (update (demo_env eight) (demo_conf ''tech,down'') demo_state)
       = Some (wrap_error (demo_env eight) connection_error)
   \<and> run_ops (update (demo_env eight) (demo_conf ''tech,down'') demo_state)
       = [Checkpoint demo_state]
   \<and> is_checkpoint (Checkpoint demo_state)"
  by code_simp

text \<open>
  Claim C3 on the code. The enrichment service answers with three \<open>p_values\<close>: the
  record of the first article is emitted with \<open>blue\<close>, \<open>red\<close>, \<open>p0\<close>, \<open>p1\<close> and \<open>p2\<close>
  and without \<open>p3\<close> to \<open>p7\<close>, neither enriched nor free of enrichment fields.
\<close>

theorem partial_enrichment_emitted:
  "hd (run_ops (update (demo_env (take 3 eight)) (demo_conf ''ai'') demo_state))
     = Upsert ''article'' partial_record
   \<and> ''blue'' \<in> keys partial_record \<and> ''red'' \<in> keys partial_record
   \<and> ''p2'' \<in> keys partial_record \<and> ''p3'' \<notin> keys partial_record
   \<and> \<not> enriched partial_record \<and> \<not> unenriched partial_record"
  by code_simp

text \<open>
  Claim C5 on the code. The destination cannot be reached: \<open>connect\<close> raises before the
  \<open>try\<close> of \<open>get_last_published_at\<close>, the exception leaves \<open>update\<close> as it is, and the
  run ends before any request or operation.
\<close>

theorem connect_failure_aborts:
  "get_last_published_at unreachable_env (demo_conf ''ai,tech'') = Inl connection_error
   \<and> update unreachable_env (demo_conf ''ai,tech'') demo_state
       = \<lparr>run_ops = [], run_outcome = Some connection_error, run_world = w0\<rparr>"
  by code_simp


end
